theory Spec2Isabelle
  imports Main "HOL-Library.Word"
begin

section \<open>The multi-stream coordinator (XrdClientMStream.cc)\<close>

subsection \<open>Request splitting\<close>

text \<open>
  \<^verbatim>\<open>XrdClientMStream::SplitReadRequest\<close> works on \<^verbatim>\<open>kXR_int32\<close> and \<^verbatim>\<open>kXR_int64\<close>
  values. They are modelled as \<^typ>\<open>int\<close> with the ranges written out: a signed
  overflow is undefined behaviour in C++, and the model has no result (\<open>None\<close>) there.
\<close>

definition INT32_MAX :: int where
  "INT32_MAX = 2147483647"

definition INT64_MIN :: int where
  "INT64_MIN = - 9223372036854775808"

definition INT64_MAX :: int where
  "INT64_MAX = 9223372036854775807"

text \<open>The macros \<^verbatim>\<open>xrdmin\<close> and \<^verbatim>\<open>xrdmax\<close> of XrdClientConst.hh.\<close>

definition xrdmin :: "int \<Rightarrow> int \<Rightarrow> int" where
  "xrdmin a b = (if a < b then a else b)"

definition xrdmax :: "int \<Rightarrow> int \<Rightarrow> int" where
  "xrdmax a b = (if a > b then a else b)"

text \<open>Division of C++ integers truncates towards zero.\<close>

definition cdiv :: "int \<Rightarrow> int \<Rightarrow> int" where
  "cdiv a b = sgn a * sgn b * (\<bar>a\<bar> div \<bar>b\<bar>)"

record ReadChunk =
  offset :: int
  len :: int
  streamtosend :: int

text \<open>
  The loop \<^verbatim>\<open>for (kXR_int32 pp = 0; pp < len; pp += spltsize)\<close>. The selector
  \<^verbatim>\<open>cliconn->GetParallelStreamToUse()\<close> is a call into the connection: \<open>sel k\<close> is
  what its \<open>k\<close>-th call returns. \<open>reqlists\<close> is the vector the chunks are pushed to.
  The loop does not end when \<open>spltsize \<le> 0\<close>; it is a partial function, with no
  result where the C++ has none.
\<close>

partial_function (option) SplitReadRequest_loop ::
  "int \<Rightarrow> int \<Rightarrow> int \<Rightarrow> (nat \<Rightarrow> int) \<Rightarrow> nat \<Rightarrow> int \<Rightarrow> ReadChunk list \<Rightarrow> ReadChunk list option"
where
  "SplitReadRequest_loop ofs ln spltsize sel k pp reqlists =
     (if pp < ln then
        (if pp + ofs < INT64_MIN \<or> INT64_MAX < pp + ofs then None
         else if INT32_MAX < pp + spltsize then None
         else SplitReadRequest_loop ofs ln spltsize sel (Suc k) (pp + spltsize)
                (reqlists @ [\<lparr>offset = pp + ofs,
                               len = xrdmin (ln - pp) spltsize,
                               streamtosend = sel k\<rparr>]))
      else Some reqlists)"

declare SplitReadRequest_loop.simps [code]

text \<open>
  \<open>dflt\<close> is the constant \<^verbatim>\<open>DFLT_MULTISTREAMSPLITSIZE\<close> and \<open>nstreams\<close> the value of
  \<^verbatim>\<open>cliconn->GetParallelStreamCount()\<close>; neither is defined in the sources at hand, so
  both are parameters. The function returns \<^verbatim>\<open>true\<close> and the filled vector.
\<close>

definition SplitReadRequest ::
  "int \<Rightarrow> int \<Rightarrow> (nat \<Rightarrow> int) \<Rightarrow> int \<Rightarrow> int \<Rightarrow> ReadChunk list \<Rightarrow> (bool \<times> ReadChunk list) option"
where
  "SplitReadRequest dflt nstreams sel ofs ln reqlists =
     (let spltsize = (if nstreams > 1 then xrdmax dflt (cdiv ln nstreams + 1) else dflt)
      in map_option (\<lambda>r. (True, r)) (SplitReadRequest_loop ofs ln spltsize sel 0 0 reqlists))"

text \<open>The effective split size, as the claims word it.\<close>

definition effective_split :: "int \<Rightarrow> int \<Rightarrow> int \<Rightarrow> int" where
  "effective_split dflt nstreams ln =
     (if nstreams \<le> 1 then dflt else max dflt (ln div nstreams + 1))"

text \<open>
  \<open>partitions a b cs\<close>: the chunks \<open>cs\<close>, in their order, tile the range \<open>[a, b)\<close>:
  the first starts at \<open>a\<close>, each starts where the one before ends, every chunk is
  non-empty and the last ends at \<open>b\<close>.
\<close>

fun partitions :: "int \<Rightarrow> int \<Rightarrow> ReadChunk list \<Rightarrow> bool" where
  "partitions a b [] = (a = b)"
| "partitions a b (c # cs) = (offset c = a \<and> 0 < len c \<and> partitions (a + len c) b cs)"

text \<open>
  Modelled from the spec: \<^verbatim>\<open>GetParallelStreamToUse\<close> is not among the sources. The spec
  has it select round-robin over the sub-streams from a single counter: with \<open>n\<close>
  sub-streams, all connected, and the counter at 0, its \<open>k\<close>-th call returns \<open>k mod n\<close>.
\<close>

definition round_robin :: "nat \<Rightarrow> nat \<Rightarrow> int" where
  "round_robin n k = int (k mod n)"

subsection \<open>Binding a parallel stream to the session\<close>

type_synonym byte = "8 word"

text \<open>
  The protocol structures of XProtocol.hh are not among the sources at hand. They are
  modelled with the fields the code reads and writes: the response header of the
  server (\<^verbatim>\<open>streamid[2]\<close>, \<^verbatim>\<open>status\<close>, \<^verbatim>\<open>dlen\<close>), the body of a bind response (one
  byte, the substream id) and the bind view of the \<^verbatim>\<open>ClientRequest\<close> union.
\<close>

record ServerResponseHeader =
  resp_streamid :: "byte list"
  resp_status :: nat
  resp_dlen :: int

record ServerResponseBody_Bind =
  substreamid :: byte

record ClientRequest =
  req_streamid :: "byte list"
  req_requestid :: nat
  req_sessid :: "byte list"
  req_dlen :: int

definition kXR_ok :: nat where
  "kXR_ok = 0"

definition kXR_bind :: nat where
  "kXR_bind = 3024"

text \<open>\<^verbatim>\<open>XrdClientConn::kSTError\<close>, from the enumeration \<^verbatim>\<open>ServerType\<close>.\<close>

definition kSTError :: int where
  "kSTError = - 1"

text \<open>The calls made on the physical connection and on the wire, in their order.\<close>

datatype PhyCall =
    TryConnectParallelStream_call
  | DoHandShake_call int
  | ReinitFDTable_call
  | SendGenCommand_call ClientRequest int
  | EstablishPendingParallelStream_call int
  | RemoveParallelStream_call int

text \<open>
  \<^verbatim>\<open>XrdClientConn\<close>, with the members the multi-stream code touches: the last response
  of the server, the session id got from the login (\<^verbatim>\<open>char fSessionID[16]\<close>), and the
  log of the calls made through it.
\<close>

record XrdClientConn =
  LastServerResp :: ServerResponseHeader
  fSessionID :: "byte list"
  phyCalls :: "PhyCall list"

text \<open>
  What the collaborators answer: the physical connection (\<^verbatim>\<open>TryConnectParallelStream\<close>,
  \<^verbatim>\<open>DoHandShake\<close>, \<^verbatim>\<open>IsValid\<close>, \<^verbatim>\<open>EstablishPendingParallelStream\<close>), the two bytes
  \<^verbatim>\<open>SetSID\<close> writes, the exchange \<^verbatim>\<open>SendGenCommand\<close> (its result, the response header it
  leaves in \<^verbatim>\<open>LastServerResp\<close> and the body it stores in \<^verbatim>\<open>bndresp\<close>), and the constant
  \<^verbatim>\<open>XRDCLI_PSOCKTEMP\<close>, which the sources at hand do not define.
\<close>

record MSWorld =
  TryConnectParallelStream :: int
  DoHandShake :: int
  IsValid :: bool
  EstablishPendingParallelStream :: "int \<Rightarrow> int"
  SetSID :: "byte list"
  SendGenCommand :: "ClientRequest \<Rightarrow> int \<Rightarrow> bool \<times> ServerResponseHeader \<times> ServerResponseBody_Bind"
  XRDCLI_PSOCKTEMP :: int

text \<open>\<^verbatim>\<open>memcpy(dst, src, n)\<close> on byte arrays.\<close>

definition memcpy :: "byte list \<Rightarrow> byte list \<Rightarrow> nat \<Rightarrow> byte list" where
  "memcpy dst src n = take n src @ drop n dst"

text \<open>
  Modelled from the spec: \<^verbatim>\<open>XrdClientConn::GetSessionID\<close> is not among the sources. It
  hands out the session id obtained at the login of the primary stream, the 16 bytes of
  \<^verbatim>\<open>fSessionID\<close>, in \<open>sess.id\<close>.
\<close>

definition GetSessionID :: "XrdClientConn \<Rightarrow> byte list" where
  "GetSessionID cliconn = fSessionID cliconn"

text \<open>
  The request \<open>BindPendingStream\<close> prepares: \<^verbatim>\<open>memset\<close> to zero, \<^verbatim>\<open>SetSID\<close> on the header,
  the request id, and the session id copied with \<^verbatim>\<open>memcpy(.., sess.id, sizeof(sess.id))\<close>,
  16 bytes.
\<close>

definition bindFileRequest :: "MSWorld \<Rightarrow> XrdClientConn \<Rightarrow> ClientRequest" where
  "bindFileRequest w cliconn =
     (let sess = GetSessionID cliconn;
          r0 = \<lparr>req_streamid = replicate 2 0, req_requestid = 0,
                req_sessid = replicate 16 0, req_dlen = 0\<rparr>;
          r1 = r0\<lparr>req_streamid := SetSID w\<rparr>;
          r2 = r1\<lparr>req_requestid := kXR_bind\<rparr>
      in r2\<lparr>req_sessid := memcpy (req_sessid r2) sess 16\<rparr>)"

text \<open>
  \<^verbatim>\<open>BindPendingStream(cliconn, substreamid, newid)\<close>; \<open>newid\<close> is passed by reference, so
  its value after the call is returned with the result.
\<close>

definition BindPendingStream ::
  "MSWorld \<Rightarrow> XrdClientConn \<Rightarrow> int \<Rightarrow> int \<Rightarrow> bool \<times> int \<times> XrdClientConn"
where
  "BindPendingStream w cliconn substrid newid =
     (let LastServerResptmp = LastServerResp cliconn;
          c1 = cliconn\<lparr>phyCalls := phyCalls cliconn @ [ReinitFDTable_call]\<rparr>;
          req = bindFileRequest w c1;
          (res, resp, bndresp) = SendGenCommand w req substrid;
          c2 = c1\<lparr>LastServerResp := resp,
                  phyCalls := phyCalls c1 @ [SendGenCommand_call req substrid]\<rparr>;
          newid' = (if res \<and> resp_status (LastServerResp c2) = kXR_ok
                    then int (unat (substreamid bndresp)) else newid);
          c3 = c2\<lparr>LastServerResp := LastServerResptmp\<rparr>
      in (res, newid', c3))"

definition RemoveParallelStream :: "XrdClientConn \<Rightarrow> int \<Rightarrow> int \<times> XrdClientConn" where
  "RemoveParallelStream cliconn substream =
     (0, cliconn\<lparr>phyCalls := phyCalls cliconn @ [RemoveParallelStream_call substream]\<rparr>)"

definition AddParallelStream :: "MSWorld \<Rightarrow> XrdClientConn \<Rightarrow> int \<times> XrdClientConn" where
  "AddParallelStream w cliconn =
     (let c1 = cliconn\<lparr>phyCalls := phyCalls cliconn @ [TryConnectParallelStream_call]\<rparr>
      in if TryConnectParallelStream w < 0 then (- 1, c1)
      else
        let c2 = c1\<lparr>phyCalls := phyCalls c1 @ [DoHandShake_call (XRDCLI_PSOCKTEMP w)]\<rparr>
        in if DoHandShake w = kSTError then (- 1, c2)
        else
          let c3 = c2\<lparr>phyCalls := phyCalls c2 @ [ReinitFDTable_call]\<rparr>;
              newid = - 1;
              (bound, newid', c4) = BindPendingStream w c3 (XRDCLI_PSOCKTEMP w) newid
          in if bound \<and> IsValid w then
               let res = EstablishPendingParallelStream w newid';
                   c5 = c4\<lparr>phyCalls := phyCalls c4 @ [EstablishPendingParallelStream_call newid']\<rparr>
               in if res \<noteq> 0 then (res, snd (RemoveParallelStream c5 (XRDCLI_PSOCKTEMP w)))
                  else (0, c5)
             else (- 1, snd (RemoveParallelStream c4 (XRDCLI_PSOCKTEMP w))))"

text \<open>
  Sample values for the bind exchange: a session whose login gave the session id
  \<open>01 02 .. 10\<close> and whose last response was an error response; a server that answers the
  bind with \<^verbatim>\<open>kXR_ok\<close> and substream id 3; and a server whose answer arrives
  (\<^verbatim>\<open>SendGenCommand\<close> returns true) with a status other than \<^verbatim>\<open>kXR_ok\<close>.
\<close>

definition login_conn :: XrdClientConn where
  "login_conn =
     \<lparr>LastServerResp = \<lparr>resp_streamid = [0, 1], resp_status = 4003, resp_dlen = 7\<rparr>,
      fSessionID = [1, 2, 3, 4, 5, 6, 7, 8, 9, 10, 11, 12, 13, 14, 15, 16],
      phyCalls = []\<rparr>"

definition bind_ok_world :: MSWorld where
  "bind_ok_world =
     \<lparr>TryConnectParallelStream = 5, DoHandShake = 3, IsValid = True,
      EstablishPendingParallelStream = (\<lambda>i. 0), SetSID = [0, 1],
      SendGenCommand = (\<lambda>r s. (True, \<lparr>resp_streamid = [0, 1], resp_status = 0, resp_dlen = 1\<rparr>,
                                  \<lparr>substreamid = 3\<rparr>)),
      XRDCLI_PSOCKTEMP = - 2\<rparr>"

definition bind_refused_world :: MSWorld where
  "bind_refused_world =
     \<lparr>TryConnectParallelStream = 5, DoHandShake = 3, IsValid = True,
      EstablishPendingParallelStream = (\<lambda>i. 0), SetSID = [0, 1],
      SendGenCommand = (\<lambda>r s. (True, \<lparr>resp_streamid = [0, 1], resp_status = 4003, resp_dlen = 0\<rparr>,
                                  \<lparr>substreamid = 7\<rparr>)),
      XRDCLI_PSOCKTEMP = - 2\<rparr>"

text \<open>The same server, on a physical connection that is no longer valid after the exchange.\<close>

definition bind_refused_invalid_world :: MSWorld where
  "bind_refused_invalid_world = bind_refused_world\<lparr>IsValid := False\<rparr>"

text \<open>
  The same server on a valid physical connection that cannot establish a stream with a
  negative id: \<^verbatim>\<open>EstablishPendingParallelStream\<close> answers 1 there.
\<close>

definition bind_refused_unestablished_world :: MSWorld where
  "bind_refused_unestablished_world =
     bind_refused_world\<lparr>EstablishPendingParallelStream := (\<lambda>i. if i < 0 then 1 else 0)\<rparr>"

section \<open>The stream state machine (XrdClStream.cc)\<close>

subsection \<open>Status values, messages and outbound slots\<close>

text \<open>
  Modelled from the spec: XrdClStatus.hh is not among the sources. A \<^verbatim>\<open>Status\<close> is a
  severity (OK, Error, Fatal), a code and an errno; \<^verbatim>\<open>Status()\<close> is \<open>(stOK, 0, 0)\<close>,
  \<^verbatim>\<open>IsOK\<close> holds of the severity OK and \<^verbatim>\<open>IsFatal\<close> of the severity Fatal. \<open>noCode\<close> is
  the code 0 of the default argument; the other constructors are the codes the
  stream names, and \<open>otherCode\<close> stands for any code a collaborator reports.
\<close>

datatype StatusSeverity = stOK | stError | stFatal

datatype StatusCode =
    noCode
  | suContinue
  | errPollerError
  | errSocketOptError
  | errConnectionError
  | errSocketError
  | errSocketTimeout
  | errStreamDisconnect
  | otherCode nat

record Status =
  status :: StatusSeverity
  code :: StatusCode
  errNo :: int

definition IsOK :: "Status \<Rightarrow> bool" where
  "IsOK st = (status st = stOK)"

definition IsFatal :: "Status \<Rightarrow> bool" where
  "IsFatal st = (status st = stFatal)"

text \<open>The values of \<^verbatim>\<open>errno\<close> that say a write would block (Linux: both are 11).\<close>

definition EAGAIN :: int where
  "EAGAIN = 11"

definition EWOULDBLOCK :: int where
  "EWOULDBLOCK = 11"

datatype StreamStatus = Disconnected | Connected | Connecting | Error

text \<open>
  Modelled from the spec: XrdClMessage.hh is not among the sources. A \<^verbatim>\<open>Message\<close> is a
  byte buffer of known size with a movable cursor; \<^verbatim>\<open>GetSize\<close> and \<^verbatim>\<open>GetCursor\<close> read
  them as \<^verbatim>\<open>uint32_t\<close>, \<^verbatim>\<open>SetCursor\<close> sets the cursor and \<^verbatim>\<open>AdvanceCursor\<close> adds to it.
  The bytes themselves play no part in the stream.
\<close>

record Message =
  msgSize :: "32 word"
  msgCursor :: "32 word"

text \<open>
  \<^verbatim>\<open>struct OutMessageHelper\<close>. \<open>msg\<close> and \<open>handler\<close> are pointers: addresses, 0 the null
  pointer.
\<close>

record OutMessageHelper =
  msg :: nat
  handler :: nat
  expires :: int
  ownMessage :: bool

text \<open>
  The calls the stream makes on its collaborators (poller, socket, transport, incoming
  queue, task manager, message handlers), with the arguments that matter. A write on
  the socket is logged with the cursor it starts from, the byte count asked for and
  what \<^verbatim>\<open>::write\<close> returned.
\<close>

datatype Event =
    Poller_RemoveSocket
  | Poller_AddSocket
  | Poller_EnableWriteNotification bool
  | Socket_Initialize
  | Socket_Connect
  | Socket_Close
  | Socket_write "32 word" "32 word" int
  | Transport_Disconnect nat
  | IncomingQueue_FailAllHandlers Status
  | IncomingQueue_TimeoutHandlers int
  | Handler_HandleStatus nat nat Status
  | TaskManager_RegisterTask int

text \<open>
  The members of \<^verbatim>\<open>class Stream\<close> that the modelled methods read or write. The two
  queues hold pointers to \<^verbatim>\<open>OutMessageHelper\<close> objects and \<open>pCurrentOut\<close> is such a
  pointer too: \<open>helpers\<close> is the store of the live helper objects and \<open>messages\<close> the
  store of the live messages, both keyed by address. \<open>pIncoming\<close> is owned by the stream
  alone and is kept by value (\<open>None\<close> is the null pointer). \<open>calls\<close> is the log of the
  calls made on the collaborators. XrdClStream.hh is not among the sources: times,
  counters and configured values are unbounded integers.
\<close>

record Stream =
  pStreamNum :: nat
  pCurrentOut :: nat
  pOutQueue :: "nat list"
  pOutQueueConnect :: "nat list"
  pIncoming :: "Message option"
  pStreamStatus :: StreamStatus
  pLastStreamError :: StatusCode
  pLastActivity :: int
  pErrorTime :: int
  pConnectionCount :: int
  pConnectionInitTime :: int
  pTimeoutResolution :: int
  pConnectionWindow :: int
  pConnectionRetry :: int
  pStreamErrorWindow :: int
  helpers :: "nat \<Rightarrow> OutMessageHelper option"
  messages :: "nat \<Rightarrow> Message option"
  calls :: "Event list"

text \<open>
  What the world answers during one call of a method of the stream: the second
  \<^verbatim>\<open>::time(0)\<close> reads (one reading for the whole call), the results of the socket and
  of the poller, what the \<open>k\<close>-th \<^verbatim>\<open>::write\<close> of the call returns together with the
  \<^verbatim>\<open>errno\<close> it leaves, and the address \<^verbatim>\<open>new OutMessageHelper\<close> returns.
\<close>

record World =
  clock :: int
  Socket_Initialize_result :: Status
  Socket_Connect_result :: Status
  Poller_AddSocket_result :: bool
  Poller_EnableWriteNotification_result :: bool
  sys_write :: "nat \<Rightarrow> int \<times> int"
  new_OutMessageHelper :: nat

definition call :: "Event \<Rightarrow> Stream \<Rightarrow> Stream" where
  "call e s = s\<lparr>calls := calls s @ [e]\<rparr>"

text \<open>
  Reading through a pointer: the null pointer and an address that holds no live object
  have no defined value.
\<close>

definition deref :: "(nat \<Rightarrow> 'a option) \<Rightarrow> nat \<Rightarrow> 'a option" where
  "deref store p = (if p = 0 then None else store p)"

text \<open>
  \<^verbatim>\<open>delete p\<close> for a helper \<open>p\<close> whose object is \<open>h\<close>: the destructor deletes the message
  when the helper owns it, and the helper is gone.
\<close>

definition delete_OutMessageHelper :: "nat \<Rightarrow> OutMessageHelper \<Rightarrow> Stream \<Rightarrow> Stream" where
  "delete_OutMessageHelper p h s =
     s\<lparr>helpers := (helpers s)(p := None),
       messages := (if ownMessage h then (messages s)(msg h := None) else messages s)\<rparr>"

text \<open>\<^verbatim>\<open>if( h->handler ) h->handler->HandleStatus( h->msg, st )\<close>.\<close>

definition notify :: "OutMessageHelper \<Rightarrow> Status \<Rightarrow> Stream \<Rightarrow> Stream" where
  "notify h st s =
     (if handler h \<noteq> 0 then call (Handler_HandleStatus (handler h) (msg h) st) s else s)"

subsection \<open>Failing the outgoing handlers\<close>

text \<open>The loop of \<^verbatim>\<open>Stream::FailOutgoingHandlers\<close> over \<open>pOutQueue\<close>.\<close>

fun FailOutgoingHandlers_loop :: "Status \<Rightarrow> nat list \<Rightarrow> Stream \<Rightarrow> Stream option" where
  "FailOutgoingHandlers_loop st [] s = Some s"
| "FailOutgoingHandlers_loop st (p # its) s =
     (case deref (helpers s) p of
        None \<Rightarrow> None
      | Some h \<Rightarrow> FailOutgoingHandlers_loop st its (delete_OutMessageHelper p h (notify h st s)))"

definition FailOutgoingHandlers :: "Status \<Rightarrow> Stream \<Rightarrow> Stream option" where
  "FailOutgoingHandlers st s =
     map_option (\<lambda>s'. s'\<lparr>pOutQueue := []\<rparr>) (FailOutgoingHandlers_loop st (pOutQueue s) s)"

subsection \<open>Connecting and handling a stream fault\<close>

text \<open>
  \<^verbatim>\<open>Stream::HandleStreamFault\<close> calls \<^verbatim>\<open>Stream::Connect\<close> when it retries at once, and
  \<^verbatim>\<open>Connect\<close> calls \<^verbatim>\<open>HandleStreamFault\<close> with a fatal status when the poller refuses the
  socket. \<^verbatim>\<open>Connect\<close> returns its status with the stream.
\<close>

function HandleStreamFault :: "World \<Rightarrow> Status \<Rightarrow> Stream \<Rightarrow> Stream option"
  and Connect :: "World \<Rightarrow> Stream \<Rightarrow> (Status \<times> Stream) option"
where
  "HandleStreamFault w st s =
     (let now = clock w;
          s1 = call Socket_Close (call Poller_RemoveSocket s);
          s2 = s1\<lparr>pCurrentOut := 0, pIncoming := None\<rparr>;
          s3 = call (Transport_Disconnect (pStreamNum s2)) s2
      in if \<not> IsFatal st \<and> pConnectionCount s3 < pConnectionRetry s3 then
           (let s4 = s3\<lparr>pStreamStatus := Connecting\<rparr>;
                newConnectTime = pConnectionInitTime s4 + pConnectionWindow s4;
                timeToConnect = newConnectTime - now
            in if timeToConnect \<le> 0 then map_option snd (Connect w s4)
               else Some (call (TaskManager_RegisterTask newConnectTime) s4))
         else
           (let s5 = s3\<lparr>pStreamStatus := Error, pLastStreamError := code st, pErrorTime := now\<rparr>;
                s6 = (if pStreamNum s5 = 0 then call (IncomingQueue_FailAllHandlers st) s5 else s5)
            in FailOutgoingHandlers st s6))"
| "Connect w s =
     (let s1 = s\<lparr>pConnectionInitTime := clock w, pConnectionCount := pConnectionCount s + 1\<rparr>;
          s2 = call Socket_Initialize s1
      in if \<not> IsOK (Socket_Initialize_result w) then
           Some (Socket_Initialize_result w, s2\<lparr>pStreamStatus := Error\<rparr>)
         else
           (let s3 = call Socket_Connect s2
            in if \<not> IsOK (Socket_Connect_result w) then
                 Some (Socket_Connect_result w, s3\<lparr>pStreamStatus := Error\<rparr>)
               else
                 (let s4 = call Poller_AddSocket (s3\<lparr>pStreamStatus := Connecting\<rparr>)
                  in if \<not> Poller_AddSocket_result w then
                       map_option (Pair \<lparr>status = stFatal, code = errPollerError, errNo = 0\<rparr>)
                         (HandleStreamFault w \<lparr>status = stFatal, code = errPollerError, errNo = 0\<rparr> s4)
                     else
                       (let s5 = call (Poller_EnableWriteNotification (pTimeoutResolution s4 \<noteq> 0)) s4
                        in if \<not> Poller_EnableWriteNotification_result w then
                             map_option (Pair \<lparr>status = stFatal, code = errPollerError, errNo = 0\<rparr>)
                               (HandleStreamFault w \<lparr>status = stFatal, code = errPollerError, errNo = 0\<rparr> s5)
                           else Some (\<lparr>status = stOK, code = noCode, errNo = 0\<rparr>, s5)))))"
  by pat_completeness auto
termination
  by (relation "measure (\<lambda>x. case x of Inl (w, st, s) \<Rightarrow> (if IsFatal st then 0 else 2)
                                    | Inr (w, s) \<Rightarrow> 1)")
     (auto simp: IsFatal_def)

declare HandleStreamFault.simps [simp del] Connect.simps [simp del]


subsection \<open>Queueing a message\<close>

definition CheckConnection :: "World \<Rightarrow> Stream \<Rightarrow> (Status \<times> Stream) option" where
  "CheckConnection w s =
     (let now = clock w
      in if pStreamStatus s = Connected \<or> pStreamStatus s = Connecting then
           Some (\<lparr>status = stOK, code = noCode, errNo = 0\<rparr>, s)
         else if pStreamStatus s = Error \<and> now - pErrorTime s > pStreamErrorWindow s then
           Some (\<lparr>status = stError, code = noCode, errNo = 0\<rparr>, s)
         else Connect w s)"

text \<open>
  \<^verbatim>\<open>QueueOut(msg, handler, timeout)\<close>. The handler is called through its pointer without
  a null check when the connection check fails.
\<close>

definition QueueOut :: "World \<Rightarrow> nat \<Rightarrow> nat \<Rightarrow> int \<Rightarrow> Stream \<Rightarrow> (Status \<times> Stream) option" where
  "QueueOut w m h timeout s =
     (case CheckConnection w s of
        None \<Rightarrow> None
      | Some (sc, s1) \<Rightarrow>
          if \<not> IsOK sc then
            (if h = 0 then None else Some (sc, call (Handler_HandleStatus h m sc) s1))
          else if pOutQueue s1 = [] \<and> pStreamStatus s1 = Connected
                  \<and> \<not> Poller_EnableWriteNotification_result w then
            map_option (Pair \<lparr>status = stFatal, code = errPollerError, errNo = 0\<rparr>)
              (HandleStreamFault w \<lparr>status = stFatal, code = errPollerError, errNo = 0\<rparr>
                 (call (Poller_EnableWriteNotification True) s1))
          else
            (let s2 = (if pOutQueue s1 = [] \<and> pStreamStatus s1 = Connected
                       then call (Poller_EnableWriteNotification True) s1 else s1);
                 p = new_OutMessageHelper w;
                 s3 = s2\<lparr>helpers := (helpers s2)(p \<mapsto>
                         \<lparr>msg = m, handler = h, expires = clock w + timeout, ownMessage = False\<rparr>)\<rparr>
             in Some (\<lparr>status = stOK, code = noCode, errNo = 0\<rparr>,
                      s3\<lparr>pOutQueue := pOutQueue s3 @ [p]\<rparr>)))"

subsection \<open>Disconnecting\<close>

definition Disconnect :: "bool \<Rightarrow> Stream \<Rightarrow> Stream option" where
  "Disconnect force s =
     (if \<not> force \<and> pOutQueue s \<noteq> [] then Some s
      else
        (let s1 = call Socket_Close (call Poller_RemoveSocket s);
             s2 = (if pStreamNum s1 = 0
                   then call (IncomingQueue_FailAllHandlers
                                \<lparr>status = stError, code = errStreamDisconnect, errNo = 0\<rparr>) s1
                   else s1)
         in case FailOutgoingHandlers \<lparr>status = stError, code = errStreamDisconnect, errNo = 0\<rparr> s2 of
              None \<Rightarrow> None
            | Some s3 \<Rightarrow>
                Some (call (Transport_Disconnect (pStreamNum s3)) (s3\<lparr>pStreamStatus := Disconnected\<rparr>))))"

subsection \<open>The clock event\<close>

text \<open>
  The loop of \<^verbatim>\<open>Stream::Tick\<close> over \<open>pOutQueue\<close>: it returns the pointers that stay in
  the queue, in their order, with the stream.
\<close>

fun Tick_loop :: "int \<Rightarrow> nat list \<Rightarrow> Stream \<Rightarrow> (nat list \<times> Stream) option" where
  "Tick_loop now [] s = Some ([], s)"
| "Tick_loop now (p # its) s =
     (if p \<noteq> 0 \<and> p \<noteq> pCurrentOut s then
        (case deref (helpers s) p of
           None \<Rightarrow> None
         | Some h \<Rightarrow>
             if expires h \<le> now then
               Tick_loop now its
                 (delete_OutMessageHelper p h
                    (notify h \<lparr>status = stError, code = errSocketTimeout, errNo = 0\<rparr> s))
             else map_option (\<lambda>(q, s'). (p # q, s')) (Tick_loop now its s))
      else map_option (\<lambda>(q, s'). (p # q, s')) (Tick_loop now its s))"

definition Tick :: "int \<Rightarrow> Stream \<Rightarrow> Stream option" where
  "Tick now s =
     (let s1 = (if pStreamNum s = 0 then call (IncomingQueue_TimeoutHandlers now) s else s)
      in map_option (\<lambda>(q, s'). s'\<lparr>pOutQueue := q\<rparr>) (Tick_loop now (pOutQueue s1) s1))"

subsection \<open>Writing a message\<close>

text \<open>
  \<^verbatim>\<open>int status = ::write( sock, msg->GetBufferAtCursor(), leftToBeWritten )\<close>: the
  \<^verbatim>\<open>ssize_t\<close> that \<^verbatim>\<open>::write\<close> returns is stored in an \<^verbatim>\<open>int\<close>, 32 bits wide. A return
  value outside the range of \<^verbatim>\<open>int\<close> is cut to its low 32 bits, read as signed.
\<close>

definition write_status :: "int \<Rightarrow> int" where
  "write_status r = sint (word_of_int r :: 32 word)"

text \<open>
  The loop \<^verbatim>\<open>while( leftToBeWritten )\<close> of \<^verbatim>\<open>Stream::WriteMessage\<close> on the message at
  address \<open>m\<close>; \<open>wr k\<close> is the return value and the \<^verbatim>\<open>errno\<close> of the \<open>k\<close>-th \<^verbatim>\<open>::write\<close>.
  The result is the status of an early \<^verbatim>\<open>return\<close>, or \<open>None\<close> when the loop ends with
  nothing left to write. \<^verbatim>\<open>leftToBeWritten\<close> is a \<^verbatim>\<open>uint32_t\<close>, and so is the cursor:
  \<^verbatim>\<open>AdvanceCursor( status )\<close> and \<^verbatim>\<open>leftToBeWritten -= status\<close> convert the \<^verbatim>\<open>int\<close> to it.
  The loop is a partial function: a world whose writes return more than was asked for
  may keep it running.
\<close>

partial_function (option) WriteMessage_loop ::
  "(nat \<Rightarrow> int \<times> int) \<Rightarrow> nat \<Rightarrow> nat \<Rightarrow> 32 word \<Rightarrow> Stream \<Rightarrow> (Status option \<times> Stream) option"
where
  "WriteMessage_loop wr k m leftToBeWritten s =
     (if leftToBeWritten \<noteq> 0 then
        (case deref (messages s) m of
           None \<Rightarrow> None
         | Some mg \<Rightarrow>
             if write_status (fst (wr k)) \<le> 0 then
               (if snd (wr k) = EAGAIN \<or> snd (wr k) = EWOULDBLOCK then
                  Some (Some \<lparr>status = stOK, code = suContinue, errNo = 0\<rparr>,
                        call (Socket_write (msgCursor mg) leftToBeWritten (fst (wr k))) s)
                else
                  Some (Some \<lparr>status = stError, code = errSocketError, errNo = snd (wr k)\<rparr>,
                        (call (Socket_write (msgCursor mg) leftToBeWritten (fst (wr k))) s)
                          \<lparr>messages := (messages s)(m \<mapsto> mg\<lparr>msgCursor := 0\<rparr>)\<rparr>))
             else
               WriteMessage_loop wr (Suc k) m
                 (leftToBeWritten - word_of_int (write_status (fst (wr k))))
                 ((call (Socket_write (msgCursor mg) leftToBeWritten (fst (wr k))) s)
                    \<lparr>messages := (messages s)(m \<mapsto>
                        mg\<lparr>msgCursor := msgCursor mg + word_of_int (write_status (fst (wr k)))\<rparr>)\<rparr>))
      else Some (None, s))"

declare WriteMessage_loop.simps [code]

text \<open>The queue \<^verbatim>\<open>WriteMessage\<close> is called on: \<open>pOutQueue\<close> or \<open>pOutQueueConnect\<close>.\<close>

datatype QueueSel = OutQueue | OutQueueConnect

definition get_queue :: "QueueSel \<Rightarrow> Stream \<Rightarrow> nat list" where
  "get_queue q s = (case q of OutQueue \<Rightarrow> pOutQueue s | OutQueueConnect \<Rightarrow> pOutQueueConnect s)"

definition set_queue :: "QueueSel \<Rightarrow> nat list \<Rightarrow> Stream \<Rightarrow> Stream" where
  "set_queue q v s =
     (case q of OutQueue \<Rightarrow> s\<lparr>pOutQueue := v\<rparr> | OutQueueConnect \<Rightarrow> s\<lparr>pOutQueueConnect := v\<rparr>)"

text \<open>
  The first part of \<^verbatim>\<open>WriteMessage\<close>, when nothing is being written and the queue is
  not empty: \<^verbatim>\<open>pCurrentOut = queue.front(); pCurrentOut->msg->SetCursor(0)\<close>.
\<close>

definition WriteMessage_pick :: "QueueSel \<Rightarrow> Stream \<Rightarrow> Stream option" where
  "WriteMessage_pick q s =
     (let s1 = s\<lparr>pCurrentOut := hd (get_queue q s)\<rparr>
      in case deref (helpers s1) (pCurrentOut s1) of
           None \<Rightarrow> None
         | Some h \<Rightarrow>
             (case deref (messages s1) (msg h) of
                None \<Rightarrow> None
              | Some mg \<Rightarrow> Some (s1\<lparr>messages := (messages s1)(msg h \<mapsto> mg\<lparr>msgCursor := 0\<rparr>)\<rparr>)))"

text \<open>
  The end of \<^verbatim>\<open>WriteMessage\<close>, once the whole message is written: the handler is told,
  the front of the queue is popped (popping an empty list is undefined), the current
  helper is deleted and write notifications are disabled when the queue is empty.
\<close>

definition WriteMessage_done :: "World \<Rightarrow> QueueSel \<Rightarrow> Stream \<Rightarrow> (Status \<times> Stream) option" where
  "WriteMessage_done w q s =
     (case deref (helpers s) (pCurrentOut s) of
        None \<Rightarrow> None
      | Some h \<Rightarrow>
          (let s1 = notify h \<lparr>status = stOK, code = noCode, errNo = 0\<rparr> s
           in if get_queue q s1 = [] then None
              else
                (let s2 = set_queue q (tl (get_queue q s1)) s1;
                     s3 = (delete_OutMessageHelper (pCurrentOut s2) h s2)\<lparr>pCurrentOut := 0\<rparr>
                 in if get_queue q s3 = [] then
                      (if \<not> Poller_EnableWriteNotification_result w then
                         Some (\<lparr>status = stFatal, code = errPollerError, errNo = 0\<rparr>,
                               call (Poller_EnableWriteNotification False) s3)
                       else Some (\<lparr>status = stOK, code = noCode, errNo = 0\<rparr>,
                                  call (Poller_EnableWriteNotification False) s3))
                    else Some (\<lparr>status = stOK, code = noCode, errNo = 0\<rparr>, s3))))"

definition WriteMessage :: "World \<Rightarrow> QueueSel \<Rightarrow> Stream \<Rightarrow> (Status \<times> Stream) option" where
  "WriteMessage w q s =
     (if pCurrentOut s = 0 \<and> get_queue q s = [] then
        (if \<not> Poller_EnableWriteNotification_result w then
           Some (\<lparr>status = stFatal, code = errPollerError, errNo = 0\<rparr>,
                 call (Poller_EnableWriteNotification False) s)
         else Some (\<lparr>status = stOK, code = noCode, errNo = 0\<rparr>,
                    call (Poller_EnableWriteNotification False) s))
      else
        (case (if pCurrentOut s = 0 then WriteMessage_pick q s else Some s) of
           None \<Rightarrow> None
         | Some s1 \<Rightarrow>
             (case deref (helpers s1) (pCurrentOut s1) of
                None \<Rightarrow> None
              | Some h \<Rightarrow>
                  (case deref (messages s1) (msg h) of
                     None \<Rightarrow> None
                   | Some mg \<Rightarrow>
                       (case WriteMessage_loop (sys_write w) 0 (msg h)
                               (msgSize mg - msgCursor mg) s1 of
                          None \<Rightarrow> None
                        | Some (Some st, s2) \<Rightarrow> Some (st, s2)
                        | Some (None, s2) \<Rightarrow> WriteMessage_done w q s2)))))"

subsection \<open>Notions used to state the properties of the stream\<close>

text \<open>
  \<open>aged now s p\<close>: the slot \<open>p\<close> is a live helper that is not the current one and whose
  expiration time is at most \<open>now\<close>.
\<close>

definition aged :: "int \<Rightarrow> Stream \<Rightarrow> nat \<Rightarrow> bool" where
  "aged now s p =
     (p \<noteq> 0 \<and> p \<noteq> pCurrentOut s
      \<and> (case helpers s p of None \<Rightarrow> False | Some h \<Rightarrow> expires h \<le> now))"

text \<open>
  The calls \<^verbatim>\<open>HandleStatus(msg, st)\<close> on the handlers of the slots \<open>ps\<close>, in their order;
  a slot without a handler has none to call.
\<close>

definition handler_calls ::
  "Status \<Rightarrow> (nat \<Rightarrow> OutMessageHelper option) \<Rightarrow> nat list \<Rightarrow> Event list"
where
  "handler_calls st hs ps =
     concat (map (\<lambda>p. case hs p of
                         None \<Rightarrow> []
                       | Some h \<Rightarrow> if handler h \<noteq> 0
                                   then [Handler_HandleStatus (handler h) (msg h) st] else []) ps)"

text \<open>Whether a call is a call on a message handler.\<close>

fun is_handler_call :: "Event \<Rightarrow> bool" where
  "is_handler_call (Handler_HandleStatus h m st) = True"
| "is_handler_call e = False"

text \<open>
  The user queue is well formed: its entries are distinct pointers to live helpers, as
  \<^verbatim>\<open>QueueOut\<close> builds it (each entry comes from its own \<^verbatim>\<open>new\<close>).
\<close>

definition queue_live :: "Stream \<Rightarrow> bool" where
  "queue_live s =
     (distinct (pOutQueue s) \<and> list_all (\<lambda>p. p \<noteq> 0 \<and> helpers s p \<noteq> None) (pOutQueue s))"

text \<open>
  The same, as far as \<^verbatim>\<open>Tick\<close> needs it: a null entry and the current slot are not read.
\<close>

definition queue_tickable :: "Stream \<Rightarrow> bool" where
  "queue_tickable s =
     (distinct (pOutQueue s)
      \<and> list_all (\<lambda>p. p = 0 \<or> p = pCurrentOut s \<or> helpers s p \<noteq> None) (pOutQueue s))"

text \<open>\<open>s'\<close> is \<open>s\<close> but for the two stores and the log of calls.\<close>

definition same_but_heap :: "Stream \<Rightarrow> Stream \<Rightarrow> bool" where
  "same_but_heap s s' =
     (s'\<lparr>helpers := helpers s, messages := messages s, calls := calls s\<rparr> = s)"

text \<open>
  For the write loop. A write succeeds when the status the loop reads is positive, and the
  status is the number of bytes it wrote. \<open>written wr k n\<close> is the number of bytes the
  \<open>n\<close> writes from the \<open>k\<close>-th on have put on the socket (as a \<^verbatim>\<open>uint32_t\<close>), and
  \<open>write_log wr k n c l\<close> is the log of these \<open>n\<close> writes when they succeed, from the
  cursor \<open>c\<close> with \<open>l\<close> bytes left: each write starts where the one before stopped and
  asks for what the one before left. \<open>last_write wr n c l\<close> is the write that follows
  them. \<open>would_block\<close> holds of the two values of \<^verbatim>\<open>errno\<close> that mean "try again", and
  \<open>asks_for_rest sz\<close> of a write that asks for the bytes from its cursor to the end of a
  message of size \<open>sz\<close>.
\<close>

fun written :: "(nat \<Rightarrow> int \<times> int) \<Rightarrow> nat \<Rightarrow> nat \<Rightarrow> 32 word" where
  "written wr k 0 = 0"
| "written wr k (Suc n) = word_of_int (write_status (fst (wr k))) + written wr (Suc k) n"

fun write_log :: "(nat \<Rightarrow> int \<times> int) \<Rightarrow> nat \<Rightarrow> nat \<Rightarrow> 32 word \<Rightarrow> 32 word \<Rightarrow> Event list" where
  "write_log wr k 0 c l = []"
| "write_log wr k (Suc n) c l =
     Socket_write c l (fst (wr k))
       # write_log wr (Suc k) n (c + word_of_int (write_status (fst (wr k))))
           (l - word_of_int (write_status (fst (wr k))))"

definition last_write :: "(nat \<Rightarrow> int \<times> int) \<Rightarrow> nat \<Rightarrow> 32 word \<Rightarrow> 32 word \<Rightarrow> Event" where
  "last_write wr n c l = Socket_write (c + written wr 0 n) (l - written wr 0 n) (fst (wr n))"

definition would_block :: "int \<Rightarrow> bool" where
  "would_block e = (e = EAGAIN \<or> e = EWOULDBLOCK)"

fun asks_for_rest :: "32 word \<Rightarrow> Event \<Rightarrow> bool" where
  "asks_for_rest sz (Socket_write c l r) = (l = sz - c)"
| "asks_for_rest sz e = False"

text \<open>
  The parts of \<^verbatim>\<open>HandleStreamFault\<close>, named to state what it does. \<open>fault_cleanup\<close> is
  the stream after its first lines (socket removed from the poller and closed, current
  slot dropped, partial inbound message discarded, transport told); \<open>retrying\<close> is that
  stream with the status \<open>Connecting\<close>, as the retry branch has it; \<open>fault_terminal\<close>
  is the stream of the terminal branch just before the outgoing handlers are failed.
\<close>

definition fault_cleanup :: "Stream \<Rightarrow> Stream" where
  "fault_cleanup s =
     call (Transport_Disconnect (pStreamNum s))
       ((call Socket_Close (call Poller_RemoveSocket s))\<lparr>pCurrentOut := 0, pIncoming := None\<rparr>)"

definition retrying :: "Stream \<Rightarrow> Stream" where
  "retrying s = (fault_cleanup s)\<lparr>pStreamStatus := Connecting\<rparr>"

definition fault_terminal :: "World \<Rightarrow> Status \<Rightarrow> Stream \<Rightarrow> Stream" where
  "fault_terminal w st s =
     (let s5 = (fault_cleanup s)\<lparr>pStreamStatus := Error, pLastStreamError := code st,
                                 pErrorTime := clock w\<rparr>
      in if pStreamNum s = 0 then call (IncomingQueue_FailAllHandlers st) s5 else s5)"

text \<open>
  The moment \<open>pConnectionInitTime + pConnectionWindow\<close> has passed: the retry branch
  reconnects at once (\<^verbatim>\<open>timeToConnect <= 0\<close>).
\<close>

definition reconnects_at_once :: "World \<Rightarrow> Stream \<Rightarrow> bool" where
  "reconnects_at_once w s = (pConnectionInitTime s + pConnectionWindow s \<le> clock w)"

text \<open>
  The socket initialises and starts to connect, and the poller then refuses it
  (\<^verbatim>\<open>AddSocket\<close> or \<^verbatim>\<open>EnableWriteNotification\<close> fails): the case in which \<^verbatim>\<open>Connect\<close>
  raises a fatal fault.
\<close>

definition poller_refuses :: "World \<Rightarrow> bool" where
  "poller_refuses w =
     (IsOK (Socket_Initialize_result w) \<and> IsOK (Socket_Connect_result w)
      \<and> \<not> (Poller_AddSocket_result w \<and> Poller_EnableWriteNotification_result w))"

definition fatal_poller :: Status where
  "fatal_poller = \<lparr>status = stFatal, code = errPollerError, errNo = 0\<rparr>"

text \<open>
  The stream as \<^verbatim>\<open>Connect\<close> has it when it turns to the poller, and as it has it when
  the poller refuses.
\<close>

definition connect_begun :: "World \<Rightarrow> Stream \<Rightarrow> Stream" where
  "connect_begun w s =
     (call Socket_Connect (call Socket_Initialize
        (s\<lparr>pConnectionInitTime := clock w, pConnectionCount := pConnectionCount s + 1\<rparr>)))
       \<lparr>pStreamStatus := Connecting\<rparr>"

definition connect_refused :: "World \<Rightarrow> Stream \<Rightarrow> Stream" where
  "connect_refused w s =
     (if Poller_AddSocket_result w
      then call (Poller_EnableWriteNotification (pTimeoutResolution s \<noteq> 0))
             (call Poller_AddSocket (connect_begun w s))
      else call Poller_AddSocket (connect_begun w s))"

text \<open>
  The user queue is intact from \<open>s\<close> to \<open>s'\<close>: the same slots in the same order, no
  helper and no message deleted or changed, and no handler called since \<open>s\<close>.
\<close>

definition queue_intact :: "Stream \<Rightarrow> Stream \<Rightarrow> bool" where
  "queue_intact s s' =
     (pOutQueue s' = pOutQueue s \<and> helpers s' = helpers s \<and> messages s' = messages s
      \<and> filter is_handler_call (drop (length (calls s)) (calls s')) = [])"

text \<open>
  The handlers of the user queue of \<open>s\<close> are failed with the status \<open>st\<close> from \<open>s\<close> to
  \<open>s'\<close>: the handler calls made since \<open>s\<close> are the calls \<^verbatim>\<open>HandleStatus(msg, st)\<close> on the
  handlers of the queued slots, in the order of the queue; every queued helper is
  deleted and no other; and the queue is empty.
\<close>

definition handlers_failed :: "Status \<Rightarrow> Stream \<Rightarrow> Stream \<Rightarrow> bool" where
  "handlers_failed st s s' =
     (pOutQueue s' = []
      \<and> filter is_handler_call (drop (length (calls s)) (calls s'))
          = handler_calls st (helpers s) (pOutQueue s)
      \<and> helpers s' = (\<lambda>p. if p \<in> set (pOutQueue s) then None else helpers s p))"

text \<open>The times of the tasks registered with the task manager by the calls \<open>es\<close>.\<close>

definition registered_tasks :: "Event list \<Rightarrow> int list" where
  "registered_tasks es =
     concat (map (\<lambda>e. case e of TaskManager_RegisterTask t \<Rightarrow> [t] | _ \<Rightarrow> []) es)"



subsection \<open>Sample streams and worlds\<close>

text \<open>
  A stream 0 as its constructor leaves it, with a connection window of 30 seconds, 3
  connection retries and an error window of 1800 seconds; and a world at second \<open>t\<close>
  in which the socket and the poller do all they are asked and a write would block.
\<close>

definition fresh_stream :: Stream where
  "fresh_stream =
     \<lparr>pStreamNum = 0, pCurrentOut = 0, pOutQueue = [], pOutQueueConnect = [],
      pIncoming = None, pStreamStatus = Disconnected, pLastStreamError = noCode,
      pLastActivity = 0, pErrorTime = 0, pConnectionCount = 0, pConnectionInitTime = 0,
      pTimeoutResolution = 15, pConnectionWindow = 30, pConnectionRetry = 3,
      pStreamErrorWindow = 1800, helpers = (\<lambda>p. None), messages = (\<lambda>p. None), calls = []\<rparr>"

definition quiet_world :: "int \<Rightarrow> World" where
  "quiet_world t =
     \<lparr>clock = t,
      Socket_Initialize_result = \<lparr>status = stOK, code = noCode, errNo = 0\<rparr>,
      Socket_Connect_result = \<lparr>status = stOK, code = noCode, errNo = 0\<rparr>,
      Poller_AddSocket_result = True,
      Poller_EnableWriteNotification_result = True,
      sys_write = (\<lambda>k. (- 1, 11)),
      new_OutMessageHelper = 100\<rparr>"

text \<open>A stream that gave up at second 1000, after 3 connection attempts.\<close>

definition failed_stream :: Stream where
  "failed_stream =
     fresh_stream\<lparr>pStreamStatus := Error, pLastStreamError := errConnectionError,
                  pErrorTime := 1000, pConnectionCount := 3, pConnectionInitTime := 970\<rparr>"

text \<open>
  A connected stream with three queued slots. Slot 1 is being written (1500 of its
  4096 bytes are out) and expired at second 5, slot 2 expired at second 5 too, slot 3
  expires at second 50.
\<close>

definition busy_stream :: Stream where
  "busy_stream =
     fresh_stream\<lparr>pStreamStatus := Connected, pCurrentOut := 1, pOutQueue := [1, 2, 3],
       helpers := map_of
         [(1, \<lparr>msg = 11, handler = 21, expires = 5, ownMessage = False\<rparr>),
          (2, \<lparr>msg = 12, handler = 22, expires = 5, ownMessage = False\<rparr>),
          (3, \<lparr>msg = 13, handler = 23, expires = 50, ownMessage = False\<rparr>)],
       messages := map_of
         [(11, \<lparr>msgSize = 4096, msgCursor = 1500\<rparr>),
          (12, \<lparr>msgSize = 1024, msgCursor = 0\<rparr>),
          (13, \<lparr>msgSize = 1024, msgCursor = 0\<rparr>)]\<rparr>"

text \<open>
  A world at second \<open>t\<close> whose poller refuses the socket; a stream that is connecting
  since second 0 (one connection attempt so far) with two user messages queued; and a
  connection timeout at second \<open>t\<close>: the fault, and the world in which a task it
  registered would run.
\<close>

definition refusing_world :: "int \<Rightarrow> World" where
  "refusing_world t = (quiet_world t)\<lparr>Poller_AddSocket_result := False\<rparr>"

definition connecting_stream :: Stream where
  "connecting_stream =
     fresh_stream\<lparr>pStreamStatus := Connecting, pConnectionCount := 1, pConnectionInitTime := 0,
       pOutQueue := [2, 3],
       helpers := map_of
         [(2, \<lparr>msg = 12, handler = 22, expires = 500, ownMessage = False\<rparr>),
          (3, \<lparr>msg = 13, handler = 23, expires = 500, ownMessage = False\<rparr>)],
       messages := map_of
         [(12, \<lparr>msgSize = 1024, msgCursor = 0\<rparr>),
          (13, \<lparr>msgSize = 1024, msgCursor = 0\<rparr>)]\<rparr>"


text \<open>
  Worlds at second 5: one whose first write takes 1000 bytes and whose second would
  block; one whose write fails with \<^verbatim>\<open>EPIPE\<close> (32); one whose writes take 1000 bytes and
  then the 1596 that are left; and one whose write returns \<open>2\<^sup>3\<^sup>1\<close>, which no \<^verbatim>\<open>int\<close>
  holds, with \<^verbatim>\<open>errno\<close> at 0.
\<close>

definition partial_write_world :: World where
  "partial_write_world =
     (quiet_world 5)\<lparr>sys_write := (\<lambda>k. if k = 0 then (1000, 0) else (- 1, 11))\<rparr>"

definition broken_pipe_world :: World where
  "broken_pipe_world = (quiet_world 5)\<lparr>sys_write := (\<lambda>k. (- 1, 32))\<rparr>"

definition complete_write_world :: World where
  "complete_write_world =
     (quiet_world 5)\<lparr>sys_write := (\<lambda>k. if k = 0 then (1000, 0) else (1596, 0))\<rparr>"

definition wrapping_write_world :: World where
  "wrapping_write_world = (quiet_world 5)\<lparr>sys_write := (\<lambda>k. (2147483648, 0))\<rparr>"

subsection \<open>Splitting: the chunks tile the request\<close>

lemma ceil_div_step:
  fixes a s :: int
  assumes "0 < s"
  shows "(a - s + s - 1) div s = (a + s - 1) div s - 1"
proof -
  have "(a + s - 1) div s = ((a - 1) + s) div s" by (simp add: algebra_simps)
  also have "\<dots> = (a - 1) div s + 1" using assms div_add_self2 [of s "a - 1"] by simp
  finally show ?thesis by simp
qed

lemma ceil_div_pos:
  fixes a s :: int
  assumes "0 < s" "0 < a"
  shows "1 \<le> (a + s - 1) div s"
proof -
  have "s \<le> a + s - 1" using assms by simp
  then have "s div s \<le> (a + s - 1) div s" by (rule zdiv_mono1) (use assms in simp)
  then show ?thesis using assms by simp
qed

text \<open>
  The loop invariant. From the counter \<open>pp\<close> on, the loop pushes chunks that tile
  \<open>[ofs + pp, ofs + ln)\<close>, provided the counter stays in the 32-bit range up to its last
  increment: \<open>pp\<close> plus the number of chunks still to come times the split size.
\<close>

lemma SplitReadRequest_loop_chunks:
  assumes "0 < splt" "0 \<le> pp" "INT64_MIN \<le> ofs" "ofs + ln \<le> INT64_MAX"
    and "pp + ((ln - pp + splt - 1) div splt) * splt \<le> INT32_MAX"
  shows "\<exists>cs. SplitReadRequest_loop ofs ln splt sel k pp acc = Some (acc @ cs)
           \<and> partitions (ofs + min pp ln) (ofs + ln) cs
           \<and> (\<forall>c \<in> set cs. len c \<le> splt)
           \<and> map streamtosend cs = map sel [k ..< k + length cs]"
  using assms
proof (induction "nat (ln - pp)" arbitrary: pp k acc rule: less_induct)
  case less
  show ?case
  proof (cases "pp < ln")
    case False
    then show ?thesis
      by (subst SplitReadRequest_loop.simps) simp
  next
    case True
    let ?c = "\<lparr>offset = pp + ofs, len = xrdmin (ln - pp) splt, streamtosend = sel k\<rparr>"
    have c1: "1 \<le> (ln - pp + splt - 1) div splt"
      using ceil_div_pos [of splt "ln - pp"] True less.prems by simp
    have "1 * splt \<le> ((ln - pp + splt - 1) div splt) * splt"
      using c1 less.prems(1) by (intro mult_right_mono) simp_all
    then have nov: "pp + splt \<le> INT32_MAX" using less.prems by linarith
    have r64: "\<not> (pp + ofs < INT64_MIN \<or> INT64_MAX < pp + ofs)"
      using True less.prems by linarith
    have step: "(ln - (pp + splt) + splt - 1) div splt = (ln - pp + splt - 1) div splt - 1"
      using ceil_div_step [of splt "ln - pp"] less.prems(1) by (simp add: algebra_simps)
    have inv: "(pp + splt) + ((ln - (pp + splt) + splt - 1) div splt) * splt \<le> INT32_MAX"
      using less.prems(5) unfolding step by (simp add: algebra_simps)
    have "nat (ln - (pp + splt)) < nat (ln - pp)" using True less.prems(1) by linarith
    from less.hyps [OF this, of "Suc k" "acc @ [?c]"] less.prems inv
    obtain cs where cs:
      "SplitReadRequest_loop ofs ln splt sel (Suc k) (pp + splt) (acc @ [?c]) = Some ((acc @ [?c]) @ cs)"
      "partitions (ofs + min (pp + splt) ln) (ofs + ln) cs"
      "\<forall>c \<in> set cs. len c \<le> splt"
      "map streamtosend cs = map sel [Suc k ..< Suc k + length cs]"
      by auto
    have run: "SplitReadRequest_loop ofs ln splt sel k pp acc = Some (acc @ (?c # cs))"
      by (subst SplitReadRequest_loop.simps) (use True r64 nov cs(1) in simp)
    have p: "partitions (ofs + min pp ln) (ofs + ln) (?c # cs)"
      using cs(2) True less.prems(1) by (auto simp: xrdmin_def min_def algebra_simps)
    have l: "\<forall>c \<in> set (?c # cs). len c \<le> splt"
      using cs(3) by (auto simp: xrdmin_def)
    have m: "map streamtosend (?c # cs) = map sel [k ..< k + length (?c # cs)]"
    proof -
      have "[k ..< k + length (?c # cs)] = k # [Suc k ..< Suc k + length cs]"
        by (simp add: upt_conv_Cons del: upt_Suc)
      then show ?thesis using cs(4) by (simp del: upt_Suc)
    qed
    show ?thesis using run p l m by blast
  qed
qed

lemma spltsize_effective:
  assumes "0 < ln"
  shows "(if nstreams > 1 then xrdmax dflt (cdiv ln nstreams + 1) else dflt)
           = effective_split dflt nstreams ln"
  using assms by (auto simp: effective_split_def xrdmax_def cdiv_def max_def)

text \<open>
  Claim C3, as the code has it. With a default split size of 16 MiB and 4 parallel
  streams, a read of 100 MiB at offset 0 is split with the split size
  \<open>max (16 MiB) (100 MiB div 4 + 1) = 26214401\<close>. That gives 4 chunks, not 7: they cover
  \<open>[0, 100 MiB)\<close> exactly, and the round-robin selector tags them 0, 1, 2, 3.
\<close>

theorem SplitReadRequest_scenario_4:
  "SplitReadRequest 16777216 4 (round_robin 4) 0 104857600 [] =
     Some (True, [\<lparr>offset = 0, len = 26214401, streamtosend = 0\<rparr>,
                  \<lparr>offset = 26214401, len = 26214401, streamtosend = 1\<rparr>,
                  \<lparr>offset = 52428802, len = 26214401, streamtosend = 2\<rparr>,
                  \<lparr>offset = 78643203, len = 26214397, streamtosend = 3\<rparr>])"
  by (simp add: SplitReadRequest_def SplitReadRequest_loop.simps xrdmax_def xrdmin_def cdiv_def
      INT32_MAX_def INT64_MIN_def INT64_MAX_def round_robin_def)

text \<open>
  Claim C3 as stated fails: the request of the scenario is split in 4 chunks, so it is
  not split in 7 chunks tagged 0, 1, 2, 3, 0, 1, 2.
\<close>

theorem SplitReadRequest_scenario_4_not_7_chunks:
  "map_option (\<lambda>r. (length (snd r), map streamtosend (snd r)))
     (SplitReadRequest 16777216 4 (round_robin 4) 0 104857600 []) = Some (4, [0, 1, 2, 3])"
  by (simp add: SplitReadRequest_def SplitReadRequest_loop.simps xrdmax_def xrdmin_def cdiv_def
      INT32_MAX_def INT64_MIN_def INT64_MAX_def round_robin_def)

text \<open>
  Where the arithmetic of the loop stays in range (the 32-bit counter up to its last
  increment, that is the number of chunks times the split size, and the 64-bit end
  offset), \<open>SplitReadRequest\<close> returns \<^verbatim>\<open>true\<close> and appends chunks that tile
  \<open>[ofs, ofs + ln)\<close> with no gap and no overlap, in ascending order, each no longer than
  the effective split size; the \<open>i\<close>-th chunk carries the \<open>i\<close>-th answer of the stream
  selector. This is what the loop is written to do.
\<close>

lemma SplitReadRequest_tiles_in_range:
  assumes "0 < ln" and "0 < dflt"
    and "INT64_MIN \<le> ofs" and "ofs + ln \<le> INT64_MAX"
    and "((ln + effective_split dflt nstreams ln - 1) div effective_split dflt nstreams ln)
           * effective_split dflt nstreams ln \<le> INT32_MAX"
  shows "\<exists>cs. SplitReadRequest dflt nstreams sel ofs ln reqlists = Some (True, reqlists @ cs)
           \<and> partitions ofs (ofs + ln) cs
           \<and> (\<forall>c \<in> set cs. len c \<le> effective_split dflt nstreams ln)
           \<and> map streamtosend cs = map sel [0 ..< length cs]"
proof -
  let ?s = "effective_split dflt nstreams ln"
  have pos: "0 < ?s" using assms(2) by (simp add: effective_split_def max_def)
  have "\<exists>cs. SplitReadRequest_loop ofs ln ?s sel 0 0 reqlists = Some (reqlists @ cs)
           \<and> partitions (ofs + min 0 ln) (ofs + ln) cs
           \<and> (\<forall>c \<in> set cs. len c \<le> ?s)
           \<and> map streamtosend cs = map sel [0 ..< 0 + length cs]"
    by (rule SplitReadRequest_loop_chunks) (use assms pos in simp_all)
  then obtain cs where cs:
    "SplitReadRequest_loop ofs ln ?s sel 0 0 reqlists = Some (reqlists @ cs)"
    "partitions ofs (ofs + ln) cs" "\<forall>c \<in> set cs. len c \<le> ?s"
    "map streamtosend cs = map sel [0 ..< length cs]"
    using assms(1) by (auto simp: min_def)
  have "SplitReadRequest dflt nstreams sel ofs ln reqlists = Some (True, reqlists @ cs)"
    unfolding SplitReadRequest_def spltsize_effective [OF assms(1)] Let_def using cs(1) by simp
  then show ?thesis using cs(2-4) by blast
qed

text \<open>The request of 100 MiB over 4 streams is in range.\<close>

lemma SplitReadRequest_tiles_in_range_example:
  "\<exists>cs. SplitReadRequest 16777216 4 (round_robin 4) 0 104857600 [] = Some (True, cs)
         \<and> partitions 0 104857600 cs
         \<and> (\<forall>c \<in> set cs. len c \<le> 26214401)
         \<and> map streamtosend cs = map (round_robin 4) [0 ..< length cs]"
proof -
  have e: "effective_split 16777216 4 104857600 = 26214401"
    by (simp add: effective_split_def)
  have h: "((104857600 + effective_split 16777216 4 104857600 - 1)
             div effective_split 16777216 4 104857600)
           * effective_split 16777216 4 104857600 \<le> INT32_MAX"
    unfolding e by (simp add: INT32_MAX_def)
  show ?thesis
    using SplitReadRequest_tiles_in_range [of 104857600 16777216 0 4 "round_robin 4" "[]", OF _ _ _ _ h] e
    by (simp add: INT64_MIN_def INT64_MAX_def)
qed

text \<open>
  Claim C4 fails on the code where the loop counter leaves the 32-bit range: the counter
  \<open>pp\<close> is a \<^verbatim>\<open>kXR_int32\<close>, as the length is, and \<^verbatim>\<open>pp += spltsize\<close> overflows before
  \<open>pp < len\<close> fails. For a read of \<open>2\<^sup>3\<^sup>1 - 1\<close> bytes over 2 parallel streams the split size
  is \<open>2\<^sup>3\<^sup>0\<close>, whatever the default (16 MiB, 4 MiB); the second chunk starts at \<open>2\<^sup>3\<^sup>0\<close> and
  the increment after it overflows. With a single stream and the default of 16 MiB, a
  read of \<open>127 * 16 MiB + 1\<close> bytes overflows at its 128th chunk. The call has no
  defined result and the chunks do not partition the request.
\<close>

theorem SplitReadRequest_overflow:
  "SplitReadRequest 16777216 2 (round_robin 2) 0 2147483647 [] = None
   \<and> SplitReadRequest 4194304 2 (round_robin 2) 0 2147483647 [] = None
   \<and> SplitReadRequest 16777216 1 (round_robin 1) 0 2130706433 [] = None"
  by (simp add: SplitReadRequest_def SplitReadRequest_loop.simps xrdmax_def xrdmin_def cdiv_def
      INT32_MAX_def INT64_MIN_def INT64_MAX_def round_robin_def)

subsection \<open>The bind exchange\<close>

lemma bindFileRequest_phyCalls [simp]:
  "bindFileRequest w (cliconn\<lparr>phyCalls := x\<rparr>) = bindFileRequest w cliconn"
  by (simp add: bindFileRequest_def GetSessionID_def)

lemma bindFileRequest_sessid:
  "length (fSessionID cliconn) = 16 \<Longrightarrow> req_sessid (bindFileRequest w cliconn) = fSessionID cliconn"
  by (simp add: bindFileRequest_def GetSessionID_def Let_def memcpy_def)

lemma BindPendingStream_result:
  assumes "SendGenCommand w (bindFileRequest w cliconn) substrid = (res, resp, bndresp)"
  shows "BindPendingStream w cliconn substrid newid =
           (res,
            (if res \<and> resp_status resp = kXR_ok then int (unat (substreamid bndresp)) else newid),
            cliconn\<lparr>phyCalls := phyCalls cliconn @
               [ReinitFDTable_call, SendGenCommand_call (bindFileRequest w cliconn) substrid]\<rparr>)"
  using assms by (simp add: BindPendingStream_def Let_def)

text \<open>
  Claim C5. The request that \<open>BindPendingStream\<close> sends is a \<^verbatim>\<open>kXR_bind\<close> request whose
  \<open>sessid\<close> field is the 16 bytes of the session id of the login, byte for byte, and
  \<open>LastServerResp\<close> after the call is what it was before the call, whatever the exchange
  left there.
\<close>

theorem BindPendingStream_session:
  assumes "length (fSessionID cliconn) = 16"
    and "BindPendingStream w cliconn substrid newid = (res, newid', cliconn')"
  shows "\<exists>req. phyCalls cliconn' =
                 phyCalls cliconn @ [ReinitFDTable_call, SendGenCommand_call req substrid]
           \<and> req_requestid req = kXR_bind
           \<and> req_sessid req = fSessionID cliconn
           \<and> length (req_sessid req) = 16
           \<and> LastServerResp cliconn' = LastServerResp cliconn"
proof -
  obtain r resp b where sg: "SendGenCommand w (bindFileRequest w cliconn) substrid = (r, resp, b)"
    by (cases "SendGenCommand w (bindFileRequest w cliconn) substrid") auto
  have c': "cliconn' = cliconn\<lparr>phyCalls := phyCalls cliconn @
               [ReinitFDTable_call, SendGenCommand_call (bindFileRequest w cliconn) substrid]\<rparr>"
    using assms(2) BindPendingStream_result [OF sg, of newid] by simp
  have "req_requestid (bindFileRequest w cliconn) = kXR_bind"
    by (simp add: bindFileRequest_def Let_def)
  then show ?thesis
    using c' bindFileRequest_sessid [OF assms(1), of w] assms(1) by auto
qed

theorem BindPendingStream_session_witness:
  "length (fSessionID login_conn) = 16
   \<and> BindPendingStream bind_ok_world login_conn (- 2) (- 1) =
       (True, 3,
        login_conn\<lparr>phyCalls :=
          [ReinitFDTable_call,
           SendGenCommand_call
             \<lparr>req_streamid = [0, 1], req_requestid = 3024,
              req_sessid = [1, 2, 3, 4, 5, 6, 7, 8, 9, 10, 11, 12, 13, 14, 15, 16],
              req_dlen = 0\<rparr> (- 2)]\<rparr>)
   \<and> (\<exists>req. phyCalls (snd (snd (BindPendingStream bind_ok_world login_conn (- 2) (- 1)))) =
                 phyCalls login_conn @ [ReinitFDTable_call, SendGenCommand_call req (- 2)]
           \<and> req_requestid req = kXR_bind
           \<and> req_sessid req = fSessionID login_conn
           \<and> length (req_sessid req) = 16
           \<and> LastServerResp (snd (snd (BindPendingStream bind_ok_world login_conn (- 2) (- 1)))) =
               LastServerResp login_conn)"
proof -
  have l: "length (fSessionID login_conn) = 16"
    by (simp add: login_conn_def)
  have e: "BindPendingStream bind_ok_world login_conn (- 2) (- 1) =
       (True, 3,
        login_conn\<lparr>phyCalls :=
          [ReinitFDTable_call,
           SendGenCommand_call
             \<lparr>req_streamid = [0, 1], req_requestid = 3024,
              req_sessid = [1, 2, 3, 4, 5, 6, 7, 8, 9, 10, 11, 12, 13, 14, 15, 16],
              req_dlen = 0\<rparr> (- 2)]\<rparr>)"
    by (simp add: BindPendingStream_def bindFileRequest_def GetSessionID_def bind_ok_world_def
        login_conn_def memcpy_def kXR_ok_def kXR_bind_def Let_def)
  show ?thesis
    using BindPendingStream_session [OF l, of bind_ok_world "- 2" "- 1" True 3 "snd (snd (BindPendingStream bind_ok_world login_conn (- 2) (- 1)))"]
      l e by simp
qed

text \<open>
  Claim C9, amended. \<open>BindPendingStream\<close> returns what \<^verbatim>\<open>SendGenCommand\<close> returned, and
  \<open>newid\<close> is assigned the substream id of the server exactly when \<^verbatim>\<open>SendGenCommand\<close>
  succeeded and the status of the response is \<^verbatim>\<open>kXR_ok\<close>; otherwise it keeps the value of
  the caller. So when the exchange succeeds with another status, \<open>AddParallelStream\<close>
  (whose \<open>newid\<close> starts at \<open>-1\<close>) goes on to \<^verbatim>\<open>EstablishPendingParallelStream(-1)\<close> if
  the physical connection is still valid (\<^verbatim>\<open>phyconn->IsValid()\<close>): the temporary stream
  is then removed only if that call fails, and the result is the result of that call.
  If the physical connection is not valid, \<open>AddParallelStream\<close> removes the temporary
  stream and returns \<open>-1\<close>, and \<^verbatim>\<open>EstablishPendingParallelStream\<close> is not called.
\<close>

theorem BindPendingStream_status_not_ok:
  assumes "SendGenCommand w (bindFileRequest w cliconn) substrid = (res, resp, bndresp)"
  shows "fst (BindPendingStream w cliconn substrid newid) = res
         \<and> fst (snd (BindPendingStream w cliconn substrid newid)) =
             (if res \<and> resp_status resp = kXR_ok then int (unat (substreamid bndresp)) else newid)
         \<and> (0 \<le> TryConnectParallelStream w \<and> DoHandShake w \<noteq> kSTError \<and> IsValid w
              \<and> substrid = XRDCLI_PSOCKTEMP w \<and> res \<and> resp_status resp \<noteq> kXR_ok
            \<longrightarrow> fst (AddParallelStream w cliconn) = EstablishPendingParallelStream w (- 1)
                \<and> phyCalls (snd (AddParallelStream w cliconn)) =
                    phyCalls cliconn @
                    [TryConnectParallelStream_call, DoHandShake_call (XRDCLI_PSOCKTEMP w),
                     ReinitFDTable_call, ReinitFDTable_call,
                     SendGenCommand_call (bindFileRequest w cliconn) (XRDCLI_PSOCKTEMP w),
                     EstablishPendingParallelStream_call (- 1)]
                    @ (if EstablishPendingParallelStream w (- 1) \<noteq> 0
                       then [RemoveParallelStream_call (XRDCLI_PSOCKTEMP w)] else []))
         \<and> (0 \<le> TryConnectParallelStream w \<and> DoHandShake w \<noteq> kSTError \<and> \<not> IsValid w
              \<and> substrid = XRDCLI_PSOCKTEMP w \<and> res \<and> resp_status resp \<noteq> kXR_ok
            \<longrightarrow> fst (AddParallelStream w cliconn) = - 1
                \<and> phyCalls (snd (AddParallelStream w cliconn)) =
                    phyCalls cliconn @
                    [TryConnectParallelStream_call, DoHandShake_call (XRDCLI_PSOCKTEMP w),
                     ReinitFDTable_call, ReinitFDTable_call,
                     SendGenCommand_call (bindFileRequest w cliconn) (XRDCLI_PSOCKTEMP w),
                     RemoveParallelStream_call (XRDCLI_PSOCKTEMP w)])"
proof -
  note b = BindPendingStream_result [OF assms]
  let ?c3 = "cliconn\<lparr>phyCalls := phyCalls cliconn @
      [TryConnectParallelStream_call, DoHandShake_call (XRDCLI_PSOCKTEMP w), ReinitFDTable_call]\<rparr>"
  have 1: "fst (BindPendingStream w cliconn substrid newid) = res"
    by (simp add: b)
  have 2: "fst (snd (BindPendingStream w cliconn substrid newid)) =
             (if res \<and> resp_status resp = kXR_ok then int (unat (substreamid bndresp)) else newid)"
    by (simp add: b)
  have 3: "fst (AddParallelStream w cliconn) = EstablishPendingParallelStream w (- 1)
           \<and> phyCalls (snd (AddParallelStream w cliconn)) =
               phyCalls cliconn @
               [TryConnectParallelStream_call, DoHandShake_call (XRDCLI_PSOCKTEMP w),
                ReinitFDTable_call, ReinitFDTable_call,
                SendGenCommand_call (bindFileRequest w cliconn) (XRDCLI_PSOCKTEMP w),
                EstablishPendingParallelStream_call (- 1)]
               @ (if EstablishPendingParallelStream w (- 1) \<noteq> 0
                  then [RemoveParallelStream_call (XRDCLI_PSOCKTEMP w)] else [])"
    if h: "0 \<le> TryConnectParallelStream w" "DoHandShake w \<noteq> kSTError" "IsValid w"
      "substrid = XRDCLI_PSOCKTEMP w" "res" "resp_status resp \<noteq> kXR_ok"
  proof -
    have sg: "SendGenCommand w (bindFileRequest w ?c3) (XRDCLI_PSOCKTEMP w) = (res, resp, bndresp)"
      using assms h(4) by simp
    show ?thesis
      using h BindPendingStream_result [OF sg, of "- 1"]
      by (simp add: AddParallelStream_def RemoveParallelStream_def Let_def)
  qed
  have 4: "fst (AddParallelStream w cliconn) = - 1
           \<and> phyCalls (snd (AddParallelStream w cliconn)) =
               phyCalls cliconn @
               [TryConnectParallelStream_call, DoHandShake_call (XRDCLI_PSOCKTEMP w),
                ReinitFDTable_call, ReinitFDTable_call,
                SendGenCommand_call (bindFileRequest w cliconn) (XRDCLI_PSOCKTEMP w),
                RemoveParallelStream_call (XRDCLI_PSOCKTEMP w)]"
    if h: "0 \<le> TryConnectParallelStream w" "DoHandShake w \<noteq> kSTError" "\<not> IsValid w"
      "substrid = XRDCLI_PSOCKTEMP w" "res" "resp_status resp \<noteq> kXR_ok"
  proof -
    have sg: "SendGenCommand w (bindFileRequest w ?c3) (XRDCLI_PSOCKTEMP w) = (res, resp, bndresp)"
      using assms h(4) by simp
    show ?thesis
      using h BindPendingStream_result [OF sg, of "- 1"]
      by (simp add: AddParallelStream_def RemoveParallelStream_def Let_def)
  qed
  show ?thesis using 1 2 3 4 by blast
qed

text \<open>
  Claim C9 as stated fails. The server answers the bind with a status other than
  \<^verbatim>\<open>kXR_ok\<close> and \<^verbatim>\<open>SendGenCommand\<close> succeeds, so \<open>BindPendingStream\<close> returns true with
  \<open>newid\<close> still \<open>-1\<close>. When the physical connection is not valid, \<open>AddParallelStream\<close>
  removes the temporary stream and returns \<open>-1\<close> without a call of
  \<^verbatim>\<open>EstablishPendingParallelStream\<close>. When it is valid and
  \<^verbatim>\<open>EstablishPendingParallelStream(-1)\<close> fails, \<open>AddParallelStream\<close> removes the temporary
  stream after that call.
\<close>

theorem AddParallelStream_invalid_removes_stream:
  "fst (BindPendingStream bind_refused_invalid_world login_conn (- 2) (- 1)) = True
   \<and> fst (snd (BindPendingStream bind_refused_invalid_world login_conn (- 2) (- 1))) = - 1
   \<and> fst (AddParallelStream bind_refused_invalid_world login_conn) = - 1
   \<and> phyCalls (snd (AddParallelStream bind_refused_invalid_world login_conn)) =
       [TryConnectParallelStream_call, DoHandShake_call (- 2),
        ReinitFDTable_call, ReinitFDTable_call,
        SendGenCommand_call
          \<lparr>req_streamid = [0, 1], req_requestid = 3024,
           req_sessid = [1, 2, 3, 4, 5, 6, 7, 8, 9, 10, 11, 12, 13, 14, 15, 16],
           req_dlen = 0\<rparr> (- 2),
        RemoveParallelStream_call (- 2)]
   \<and> fst (AddParallelStream bind_refused_unestablished_world login_conn) = 1
   \<and> phyCalls (snd (AddParallelStream bind_refused_unestablished_world login_conn)) =
       [TryConnectParallelStream_call, DoHandShake_call (- 2),
        ReinitFDTable_call, ReinitFDTable_call,
        SendGenCommand_call
          \<lparr>req_streamid = [0, 1], req_requestid = 3024,
           req_sessid = [1, 2, 3, 4, 5, 6, 7, 8, 9, 10, 11, 12, 13, 14, 15, 16],
           req_dlen = 0\<rparr> (- 2),
        EstablishPendingParallelStream_call (- 1),
        RemoveParallelStream_call (- 2)]"
  by (simp add: AddParallelStream_def BindPendingStream_def RemoveParallelStream_def
      bindFileRequest_def GetSessionID_def memcpy_def Let_def kSTError_def kXR_ok_def kXR_bind_def
      bind_refused_invalid_world_def bind_refused_unestablished_world_def
      bind_refused_world_def login_conn_def)

theorem BindPendingStream_status_not_ok_witness:
  "SendGenCommand bind_refused_world (bindFileRequest bind_refused_world login_conn) (- 2) =
     (True, \<lparr>resp_streamid = [0, 1], resp_status = 4003, resp_dlen = 0\<rparr>, \<lparr>substreamid = 7\<rparr>)
   \<and> 0 \<le> TryConnectParallelStream bind_refused_world
   \<and> DoHandShake bind_refused_world \<noteq> kSTError \<and> IsValid bind_refused_world
   \<and> - 2 = XRDCLI_PSOCKTEMP bind_refused_world \<and> (4003::nat) \<noteq> kXR_ok
   \<and> fst (BindPendingStream bind_refused_world login_conn (- 2) (- 1)) = True
   \<and> fst (snd (BindPendingStream bind_refused_world login_conn (- 2) (- 1))) = - 1
   \<and> fst (AddParallelStream bind_refused_world login_conn) = 0
   \<and> phyCalls (snd (AddParallelStream bind_refused_world login_conn)) =
       [TryConnectParallelStream_call, DoHandShake_call (- 2),
        ReinitFDTable_call, ReinitFDTable_call,
        SendGenCommand_call (bindFileRequest bind_refused_world login_conn) (- 2),
        EstablishPendingParallelStream_call (- 1)]
   \<and> SendGenCommand bind_refused_invalid_world
        (bindFileRequest bind_refused_invalid_world login_conn) (- 2) =
     (True, \<lparr>resp_streamid = [0, 1], resp_status = 4003, resp_dlen = 0\<rparr>, \<lparr>substreamid = 7\<rparr>)
   \<and> 0 \<le> TryConnectParallelStream bind_refused_invalid_world
   \<and> DoHandShake bind_refused_invalid_world \<noteq> kSTError \<and> \<not> IsValid bind_refused_invalid_world
   \<and> - 2 = XRDCLI_PSOCKTEMP bind_refused_invalid_world
   \<and> fst (BindPendingStream bind_refused_invalid_world login_conn (- 2) (- 1)) = True
   \<and> fst (snd (BindPendingStream bind_refused_invalid_world login_conn (- 2) (- 1))) = - 1
   \<and> fst (AddParallelStream bind_refused_invalid_world login_conn) = - 1
   \<and> phyCalls (snd (AddParallelStream bind_refused_invalid_world login_conn)) =
       [TryConnectParallelStream_call, DoHandShake_call (- 2),
        ReinitFDTable_call, ReinitFDTable_call,
        SendGenCommand_call (bindFileRequest bind_refused_invalid_world login_conn) (- 2),
        RemoveParallelStream_call (- 2)]"
proof -
  have sg: "SendGenCommand bind_refused_world (bindFileRequest bind_refused_world login_conn) (- 2) =
     (True, \<lparr>resp_streamid = [0, 1], resp_status = 4003, resp_dlen = 0\<rparr>, \<lparr>substreamid = 7\<rparr>)"
    by (simp add: bind_refused_world_def)
  have sgi: "SendGenCommand bind_refused_invalid_world
        (bindFileRequest bind_refused_invalid_world login_conn) (- 2) =
     (True, \<lparr>resp_streamid = [0, 1], resp_status = 4003, resp_dlen = 0\<rparr>, \<lparr>substreamid = 7\<rparr>)"
    by (simp add: bind_refused_invalid_world_def bind_refused_world_def)
  have v: "0 \<le> TryConnectParallelStream bind_refused_world
      \<and> DoHandShake bind_refused_world \<noteq> kSTError \<and> IsValid bind_refused_world
      \<and> - 2 = XRDCLI_PSOCKTEMP bind_refused_world \<and> (4003::nat) \<noteq> kXR_ok
      \<and> EstablishPendingParallelStream bind_refused_world (- 1) = 0
      \<and> phyCalls login_conn = []"
    by (simp add: bind_refused_world_def login_conn_def kSTError_def kXR_ok_def)
  have vi: "0 \<le> TryConnectParallelStream bind_refused_invalid_world
      \<and> DoHandShake bind_refused_invalid_world \<noteq> kSTError \<and> \<not> IsValid bind_refused_invalid_world
      \<and> - 2 = XRDCLI_PSOCKTEMP bind_refused_invalid_world"
    by (simp add: bind_refused_invalid_world_def bind_refused_world_def kSTError_def)
  show ?thesis
    using BindPendingStream_status_not_ok [OF sg, of "- 1"]
      BindPendingStream_status_not_ok [OF sgi, of "- 1"] sg sgi v vi
    by simp
qed

section \<open>Properties of the stream\<close>

subsection \<open>Helper facts on the stores and the log\<close>

lemma handler_calls_Nil [simp]: "handler_calls st hs [] = []"
  by (simp add: handler_calls_def)

lemma handler_calls_Cons:
  "handler_calls st hs (p # ps) =
     (case hs p of None \<Rightarrow> []
      | Some h \<Rightarrow> if handler h \<noteq> 0 then [Handler_HandleStatus (handler h) (msg h) st] else [])
     @ handler_calls st hs ps"
  by (simp add: handler_calls_def)

lemma handler_calls_cong:
  "(\<And>p. p \<in> set ps \<Longrightarrow> hs p = hs' p) \<Longrightarrow> handler_calls st hs ps = handler_calls st hs' ps"
  unfolding handler_calls_def by (induction ps) auto

lemma notify_fields [simp]:
  "helpers (notify h st s) = helpers s"
  "messages (notify h st s) = messages s"
  "pCurrentOut (notify h st s) = pCurrentOut s"
  "pOutQueue (notify h st s) = pOutQueue s"
  "calls (notify h st s) =
     calls s @ (if handler h \<noteq> 0 then [Handler_HandleStatus (handler h) (msg h) st] else [])"
  by (simp_all add: notify_def call_def)

lemma delete_fields [simp]:
  "helpers (delete_OutMessageHelper p h s) = (helpers s)(p := None)"
  "pCurrentOut (delete_OutMessageHelper p h s) = pCurrentOut s"
  "pOutQueue (delete_OutMessageHelper p h s) = pOutQueue s"
  "calls (delete_OutMessageHelper p h s) = calls s"
  by (simp_all add: delete_OutMessageHelper_def)

lemma same_but_heap_refl [simp]: "same_but_heap s s"
  by (simp add: same_but_heap_def)

lemma same_but_heap_step:
  assumes "same_but_heap (delete_OutMessageHelper p h (notify h st s)) s'"
  shows "same_but_heap s s'"
proof -
  let ?s1 = "delete_OutMessageHelper p h (notify h st s)"
  have "s'\<lparr>helpers := helpers ?s1, messages := messages ?s1, calls := calls ?s1\<rparr> = ?s1"
    using assms by (simp add: same_but_heap_def)
  then have "(s'\<lparr>helpers := helpers ?s1, messages := messages ?s1, calls := calls ?s1\<rparr>)
               \<lparr>helpers := helpers s, messages := messages s, calls := calls s\<rparr>
             = ?s1\<lparr>helpers := helpers s, messages := messages s, calls := calls s\<rparr>"
    by simp
  then show ?thesis
    by (simp add: same_but_heap_def delete_OutMessageHelper_def notify_def call_def)
qed

lemma same_but_heap_fields:
  assumes "same_but_heap s s'"
  shows "pCurrentOut s' = pCurrentOut s" "pOutQueue s' = pOutQueue s"
    "pStreamNum s' = pStreamNum s" "pStreamStatus s' = pStreamStatus s"
    "pConnectionCount s' = pConnectionCount s" "pConnectionRetry s' = pConnectionRetry s"
    "pErrorTime s' = pErrorTime s" "pLastStreamError s' = pLastStreamError s"
proof -
  have e: "s'\<lparr>helpers := helpers s, messages := messages s, calls := calls s\<rparr> = s"
    using assms by (simp add: same_but_heap_def)
  show "pCurrentOut s' = pCurrentOut s" using arg_cong [OF e, of pCurrentOut] by simp
  show "pOutQueue s' = pOutQueue s" using arg_cong [OF e, of pOutQueue] by simp
  show "pStreamNum s' = pStreamNum s" using arg_cong [OF e, of pStreamNum] by simp
  show "pStreamStatus s' = pStreamStatus s" using arg_cong [OF e, of pStreamStatus] by simp
  show "pConnectionCount s' = pConnectionCount s" using arg_cong [OF e, of pConnectionCount] by simp
  show "pConnectionRetry s' = pConnectionRetry s" using arg_cong [OF e, of pConnectionRetry] by simp
  show "pErrorTime s' = pErrorTime s" using arg_cong [OF e, of pErrorTime] by simp
  show "pLastStreamError s' = pLastStreamError s" using arg_cong [OF e, of pLastStreamError] by simp
qed

subsection \<open>The clock event ages the expired slots\<close>

lemma Tick_loop_result:
  assumes "distinct its"
    and "\<forall>p \<in> set its. p \<noteq> 0 \<and> p \<noteq> pCurrentOut s \<longrightarrow> helpers s p \<noteq> None"
  shows "\<exists>s'. Tick_loop now its s = Some (filter (\<lambda>p. \<not> aged now s p) its, s')
           \<and> calls s' = calls s @ handler_calls \<lparr>status = stError, code = errSocketTimeout, errNo = 0\<rparr>
                                     (helpers s) (filter (aged now s) its)
           \<and> (\<forall>p. helpers s' p = (if p \<in> set its \<and> aged now s p then None else helpers s p))
           \<and> same_but_heap s s'"
  using assms
proof (induction its arbitrary: s)
  case Nil
  then show ?case by simp
next
  case (Cons p its)
  let ?tmo = "\<lparr>status = stError, code = errSocketTimeout, errNo = 0\<rparr>"
  show ?case
  proof (cases "aged now s p")
    case False
    from Cons.prems have d: "distinct its"
      and l: "\<forall>q \<in> set its. q \<noteq> 0 \<and> q \<noteq> pCurrentOut s \<longrightarrow> helpers s q \<noteq> None"
      by auto
    from Cons.IH [OF d l] obtain s' where s':
      "Tick_loop now its s = Some (filter (\<lambda>p. \<not> aged now s p) its, s')"
      "calls s' = calls s @ handler_calls ?tmo (helpers s) (filter (aged now s) its)"
      "\<forall>p. helpers s' p = (if p \<in> set its \<and> aged now s p then None else helpers s p)"
      "same_but_heap s s'" by blast
    have "Tick_loop now (p # its) s = Some (p # filter (\<lambda>p. \<not> aged now s p) its, s')"
      using False Cons.prems s'(1) by (auto simp: aged_def deref_def split: option.splits)
    then show ?thesis using False s' by auto
  next
    case True
    then obtain h where h: "helpers s p = Some h" "expires h \<le> now" "p \<noteq> 0" "p \<noteq> pCurrentOut s"
      by (auto simp: aged_def split: option.splits)
    let ?s1 = "delete_OutMessageHelper p h (notify h ?tmo s)"
    from Cons.prems have d: "distinct its" and pn: "p \<notin> set its" by auto
    have eqh: "\<And>q. q \<in> set its \<Longrightarrow> helpers ?s1 q = helpers s q" using pn by auto
    have eqa: "\<And>q. q \<in> set its \<Longrightarrow> aged now ?s1 q = aged now s q"
      using eqh by (simp add: aged_def)
    have l: "\<forall>q \<in> set its. q \<noteq> 0 \<and> q \<noteq> pCurrentOut ?s1 \<longrightarrow> helpers ?s1 q \<noteq> None"
      using Cons.prems eqh by auto
    from Cons.IH [OF d l] obtain s' where s':
      "Tick_loop now its ?s1 = Some (filter (\<lambda>p. \<not> aged now ?s1 p) its, s')"
      "calls s' = calls ?s1 @ handler_calls ?tmo (helpers ?s1) (filter (aged now ?s1) its)"
      "\<forall>p. helpers s' p = (if p \<in> set its \<and> aged now ?s1 p then None else helpers ?s1 p)"
      "same_but_heap ?s1 s'" by blast
    have f1: "filter (\<lambda>p. \<not> aged now ?s1 p) its = filter (\<lambda>p. \<not> aged now s p) its"
      using eqa by (auto intro: filter_cong)
    have f2: "filter (aged now ?s1) its = filter (aged now s) its"
      using eqa by (auto intro: filter_cong)
    have hc: "handler_calls ?tmo (helpers ?s1) (filter (aged now s) its)
                = handler_calls ?tmo (helpers s) (filter (aged now s) its)"
      by (rule handler_calls_cong) (use eqh in auto)
    have run: "Tick_loop now (p # its) s = Some (filter (\<lambda>p. \<not> aged now s p) (p # its), s')"
      using True h s'(1) f1 by (simp add: deref_def)
    have c: "calls s' = calls s @ handler_calls ?tmo (helpers s) (filter (aged now s) (p # its))"
      using True h s'(2) f2 hc by (simp add: handler_calls_Cons)
    have hp: "\<forall>q. helpers s' q = (if q \<in> set (p # its) \<and> aged now s q then None else helpers s q)"
      using s'(3) True eqa pn by auto
    have fr: "same_but_heap s s'" using s'(4) by (rule same_but_heap_step)
    show ?thesis using run c hp fr by blast
  qed
qed

text \<open>
  Claim C6. On a well-formed queue \<open>Tick now\<close> returns, and the queue it leaves is the
  old queue without the aged slots, in the old order: removed are exactly the slots
  that are not the current one and whose expiration time is at most \<open>now\<close>. The calls it
  makes are, on stream 0, \<^verbatim>\<open>TimeoutHandlers(now)\<close> on the incoming queue, then for each
  removed slot, in order, \<^verbatim>\<open>HandleStatus(msg, Status(stError, errSocketTimeout))\<close> on its
  handler if it has one. The removed helpers are deleted, every other helper stays, and
  the current slot stays in the queue, expired or not.
\<close>

theorem Tick_ages_expired_slots:
  assumes "queue_tickable s"
  shows "\<exists>s'. Tick now s = Some s'
           \<and> pOutQueue s' = filter (\<lambda>p. \<not> aged now s p) (pOutQueue s)
           \<and> calls s' = calls s
                @ (if pStreamNum s = 0 then [IncomingQueue_TimeoutHandlers now] else [])
                @ handler_calls \<lparr>status = stError, code = errSocketTimeout, errNo = 0\<rparr>
                    (helpers s) (filter (aged now s) (pOutQueue s))
           \<and> (\<forall>p. helpers s' p =
                    (if p \<in> set (pOutQueue s) \<and> aged now s p then None else helpers s p))
           \<and> pCurrentOut s' = pCurrentOut s
           \<and> (pCurrentOut s \<in> set (pOutQueue s) \<longrightarrow> pCurrentOut s \<in> set (pOutQueue s'))"
proof -
  define s1 where "s1 = (if pStreamNum s = 0 then call (IncomingQueue_TimeoutHandlers now) s else s)"
  have f: "helpers s1 = helpers s" "pCurrentOut s1 = pCurrentOut s" "pOutQueue s1 = pOutQueue s"
    "calls s1 = calls s @ (if pStreamNum s = 0 then [IncomingQueue_TimeoutHandlers now] else [])"
    by (simp_all add: s1_def call_def)
  have a: "aged now s1 = aged now s"
    by (simp add: aged_def fun_eq_iff f)
  have d: "distinct (pOutQueue s1)"
    using assms by (simp add: queue_tickable_def f)
  have "list_all (\<lambda>p. p = 0 \<or> p = pCurrentOut s1 \<or> helpers s1 p \<noteq> None) (pOutQueue s1)"
    using assms by (simp add: queue_tickable_def f)
  then have l: "\<forall>p \<in> set (pOutQueue s1). p \<noteq> 0 \<and> p \<noteq> pCurrentOut s1 \<longrightarrow> helpers s1 p \<noteq> None"
    by (auto simp: list_all_iff)
  from Tick_loop_result [OF d l, of now] obtain s2 where s2:
    "Tick_loop now (pOutQueue s1) s1 = Some (filter (\<lambda>p. \<not> aged now s1 p) (pOutQueue s1), s2)"
    "calls s2 = calls s1 @ handler_calls \<lparr>status = stError, code = errSocketTimeout, errNo = 0\<rparr>
                               (helpers s1) (filter (aged now s1) (pOutQueue s1))"
    "\<forall>p. helpers s2 p = (if p \<in> set (pOutQueue s1) \<and> aged now s1 p then None else helpers s1 p)"
    "same_but_heap s1 s2" by blast
  let ?s' = "s2\<lparr>pOutQueue := filter (\<lambda>p. \<not> aged now s p) (pOutQueue s)\<rparr>"
  have t: "Tick now s = Some ?s'"
    using s2(1) unfolding Tick_def Let_def s1_def [symmetric] by (simp add: a f)
  have c: "pCurrentOut s2 = pCurrentOut s"
    using same_but_heap_fields(1) [OF s2(4)] f by simp
  have cur: "\<not> aged now s (pCurrentOut s)" by (simp add: aged_def)
  have 1: "pOutQueue ?s' = filter (\<lambda>p. \<not> aged now s p) (pOutQueue s)" by simp
  have 2: "calls ?s' = calls s
                @ (if pStreamNum s = 0 then [IncomingQueue_TimeoutHandlers now] else [])
                @ handler_calls \<lparr>status = stError, code = errSocketTimeout, errNo = 0\<rparr>
                    (helpers s) (filter (aged now s) (pOutQueue s))"
    using s2(2) by (simp add: a f)
  have 3: "\<forall>p. helpers ?s' p =
                    (if p \<in> set (pOutQueue s) \<and> aged now s p then None else helpers s p)"
    using s2(3) by (simp add: a f)
  have 4: "pCurrentOut ?s' = pCurrentOut s" using c by simp
  have 5: "pCurrentOut s \<in> set (pOutQueue s) \<longrightarrow> pCurrentOut s \<in> set (pOutQueue ?s')"
    using cur by simp
  show ?thesis using t 1 2 3 4 5 by blast
qed

theorem Tick_ages_expired_slots_witness:
  "queue_tickable busy_stream
   \<and> map_option (\<lambda>s'. (pOutQueue s', calls s', pCurrentOut s', helpers s' 1 = helpers busy_stream 1,
                        helpers s' 2, helpers s' 3 = helpers busy_stream 3)) (Tick 10 busy_stream)
     = Some ([1, 3],
             [IncomingQueue_TimeoutHandlers 10,
              Handler_HandleStatus 22 12 \<lparr>status = stError, code = errSocketTimeout, errNo = 0\<rparr>],
             1, True, None, True)"
proof -
  have q: "queue_tickable busy_stream"
    by (simp add: queue_tickable_def busy_stream_def fresh_stream_def)
  have a: "aged 10 busy_stream (Suc 0) = False" "aged 10 busy_stream 2 = True"
    "aged 10 busy_stream 3 = False"
    by (simp_all add: aged_def busy_stream_def fresh_stream_def)
  have b: "pOutQueue busy_stream = [1, 2, 3]" "calls busy_stream = []"
    "pStreamNum busy_stream = 0" "pCurrentOut busy_stream = 1"
    "helpers busy_stream 2 = Some \<lparr>msg = 12, handler = 22, expires = 5, ownMessage = False\<rparr>"
    by (simp_all add: busy_stream_def fresh_stream_def)
  from Tick_ages_expired_slots [OF q, of 10] obtain s' where s':
    "Tick 10 busy_stream = Some s'"
    "pOutQueue s' = filter (\<lambda>p. \<not> aged 10 busy_stream p) (pOutQueue busy_stream)"
    "calls s' = calls busy_stream
        @ (if pStreamNum busy_stream = 0 then [IncomingQueue_TimeoutHandlers 10] else [])
        @ handler_calls \<lparr>status = stError, code = errSocketTimeout, errNo = 0\<rparr>
            (helpers busy_stream) (filter (aged 10 busy_stream) (pOutQueue busy_stream))"
    "\<forall>p. helpers s' p =
        (if p \<in> set (pOutQueue busy_stream) \<and> aged 10 busy_stream p then None
         else helpers busy_stream p)"
    "pCurrentOut s' = pCurrentOut busy_stream" by blast
  show ?thesis
    using q s' by (simp add: a b handler_calls_def)
qed

subsection \<open>Failing the outgoing handlers; disconnecting\<close>

lemma FailOutgoingHandlers_loop_result:
  assumes "distinct its" and "\<forall>p \<in> set its. p \<noteq> 0 \<and> helpers s p \<noteq> None"
  shows "\<exists>s'. FailOutgoingHandlers_loop st its s = Some s'
           \<and> calls s' = calls s @ handler_calls st (helpers s) its
           \<and> (\<forall>p. helpers s' p = (if p \<in> set its then None else helpers s p))
           \<and> same_but_heap s s'"
  using assms
proof (induction its arbitrary: s)
  case Nil
  then show ?case by simp
next
  case (Cons p its)
  from Cons.prems obtain h where h: "helpers s p = Some h" "p \<noteq> 0" by auto
  let ?s1 = "delete_OutMessageHelper p h (notify h st s)"
  from Cons.prems have d: "distinct its" and pn: "p \<notin> set its" by auto
  have eqh: "\<And>q. q \<in> set its \<Longrightarrow> helpers ?s1 q = helpers s q" using pn by auto
  have l: "\<forall>q \<in> set its. q \<noteq> 0 \<and> helpers ?s1 q \<noteq> None"
    using Cons.prems eqh by auto
  from Cons.IH [OF d l] obtain s' where s':
    "FailOutgoingHandlers_loop st its ?s1 = Some s'"
    "calls s' = calls ?s1 @ handler_calls st (helpers ?s1) its"
    "\<forall>q. helpers s' q = (if q \<in> set its then None else helpers ?s1 q)"
    "same_but_heap ?s1 s'" by blast
  have hc: "handler_calls st (helpers ?s1) its = handler_calls st (helpers s) its"
    by (rule handler_calls_cong) (use eqh in auto)
  have run: "FailOutgoingHandlers_loop st (p # its) s = Some s'"
    using h s'(1) by (simp add: deref_def)
  have c: "calls s' = calls s @ handler_calls st (helpers s) (p # its)"
    using h s'(2) hc by (simp add: handler_calls_Cons)
  have hp: "\<forall>q. helpers s' q = (if q \<in> set (p # its) then None else helpers s q)"
    using s'(3) by auto
  have fr: "same_but_heap s s'" using s'(4) by (rule same_but_heap_step)
  show ?case using run c hp fr by auto
qed

lemma FailOutgoingHandlers_result:
  assumes "queue_live s"
  shows "\<exists>s'. FailOutgoingHandlers st s = Some s'
           \<and> pOutQueue s' = []
           \<and> calls s' = calls s @ handler_calls st (helpers s) (pOutQueue s)
           \<and> (\<forall>p. helpers s' p = (if p \<in> set (pOutQueue s) then None else helpers s p))
           \<and> same_but_heap (s\<lparr>pOutQueue := []\<rparr>) s'"
proof -
  have d: "distinct (pOutQueue s)" using assms by (simp add: queue_live_def)
  have l: "\<forall>p \<in> set (pOutQueue s). p \<noteq> 0 \<and> helpers s p \<noteq> None"
    using assms by (auto simp: queue_live_def list_all_iff)
  from FailOutgoingHandlers_loop_result [OF d l, of st] obtain s1 where s1:
    "FailOutgoingHandlers_loop st (pOutQueue s) s = Some s1"
    "calls s1 = calls s @ handler_calls st (helpers s) (pOutQueue s)"
    "\<forall>p. helpers s1 p = (if p \<in> set (pOutQueue s) then None else helpers s p)"
    "same_but_heap s s1" by blast
  have e: "s1\<lparr>helpers := helpers s, messages := messages s, calls := calls s\<rparr> = s"
    using s1(4) by (simp add: same_but_heap_def)
  have fr: "same_but_heap (s\<lparr>pOutQueue := []\<rparr>) (s1\<lparr>pOutQueue := []\<rparr>)"
    using e unfolding same_but_heap_def by (cases s1, cases s) simp
  have "FailOutgoingHandlers st s = Some (s1\<lparr>pOutQueue := []\<rparr>)"
    using s1(1) by (simp add: FailOutgoingHandlers_def)
  then show ?thesis using s1(2,3) fr by auto
qed

lemma queue_live_empty: "pOutQueue s = [] \<Longrightarrow> queue_live s"
  by (simp add: queue_live_def)

text \<open>
  Claim C8. \<open>Disconnect\<close> without \<open>force\<close> on a stream whose user queue is not empty
  returns at once and leaves the stream as it was: status, queues, stores and the log of
  calls (nothing was done to the socket, no handler was called). \<open>Disconnect\<close> with
  \<open>force\<close>, or on an empty queue, removes the socket from the poller and closes it, on
  stream 0 fails the handlers of the incoming queue, calls the handler of every queued
  slot, in order, with \<^verbatim>\<open>Status(stError, errStreamDisconnect)\<close>, deletes the slots,
  leaves the queue empty and the status \<open>Disconnected\<close>, and tells the transport.
\<close>

theorem Disconnect_effect:
  "(\<not> force \<and> pOutQueue s \<noteq> [] \<longrightarrow> Disconnect force s = Some s)
   \<and> ((force \<or> pOutQueue s = []) \<and> queue_live s \<longrightarrow>
        (\<exists>s'. Disconnect force s = Some s'
           \<and> pStreamStatus s' = Disconnected
           \<and> pOutQueue s' = []
           \<and> calls s' = calls s @ [Poller_RemoveSocket, Socket_Close]
                @ (if pStreamNum s = 0
                   then [IncomingQueue_FailAllHandlers
                           \<lparr>status = stError, code = errStreamDisconnect, errNo = 0\<rparr>] else [])
                @ handler_calls \<lparr>status = stError, code = errStreamDisconnect, errNo = 0\<rparr>
                    (helpers s) (pOutQueue s)
                @ [Transport_Disconnect (pStreamNum s)]
           \<and> (\<forall>p. helpers s' p = (if p \<in> set (pOutQueue s) then None else helpers s p))))"
proof -
  let ?sd = "\<lparr>status = stError, code = errStreamDisconnect, errNo = 0\<rparr>"
  have 1: "Disconnect force s = Some s" if "\<not> force \<and> pOutQueue s \<noteq> []"
    using that by (simp add: Disconnect_def)
  have 2: "\<exists>s'. Disconnect force s = Some s'
           \<and> pStreamStatus s' = Disconnected
           \<and> pOutQueue s' = []
           \<and> calls s' = calls s @ [Poller_RemoveSocket, Socket_Close]
                @ (if pStreamNum s = 0 then [IncomingQueue_FailAllHandlers ?sd] else [])
                @ handler_calls ?sd (helpers s) (pOutQueue s)
                @ [Transport_Disconnect (pStreamNum s)]
           \<and> (\<forall>p. helpers s' p = (if p \<in> set (pOutQueue s) then None else helpers s p))"
    if go: "force \<or> pOutQueue s = []" and live: "queue_live s"
  proof -
    define s2 where "s2 = (if pStreamNum s = 0
        then call (IncomingQueue_FailAllHandlers ?sd) (call Socket_Close (call Poller_RemoveSocket s))
        else call Socket_Close (call Poller_RemoveSocket s))"
    have f: "helpers s2 = helpers s" "pOutQueue s2 = pOutQueue s" "pStreamNum s2 = pStreamNum s"
      "calls s2 = calls s @ [Poller_RemoveSocket, Socket_Close]
          @ (if pStreamNum s = 0 then [IncomingQueue_FailAllHandlers ?sd] else [])"
      by (simp_all add: s2_def call_def)
    have l2: "queue_live s2" using live by (simp add: queue_live_def f)
    from FailOutgoingHandlers_result [OF l2, of ?sd] obtain s3 where s3:
      "FailOutgoingHandlers ?sd s2 = Some s3" "pOutQueue s3 = []"
      "calls s3 = calls s2 @ handler_calls ?sd (helpers s2) (pOutQueue s2)"
      "\<forall>p. helpers s3 p = (if p \<in> set (pOutQueue s2) then None else helpers s2 p)"
      "same_but_heap (s2\<lparr>pOutQueue := []\<rparr>) s3" by blast
    have n: "pStreamNum s3 = pStreamNum s"
      using same_but_heap_fields(3) [OF s3(5)] f by simp
    let ?s' = "call (Transport_Disconnect (pStreamNum s3)) (s3\<lparr>pStreamStatus := Disconnected\<rparr>)"
    have d: "Disconnect force s = Some ?s'"
      using go s3(1) unfolding Disconnect_def Let_def call_def s2_def
      by (auto simp: call_def)
    have a: "pStreamStatus ?s' = Disconnected" by (simp add: call_def)
    have b: "pOutQueue ?s' = []" using s3(2) by (simp add: call_def)
    have c: "calls ?s' = calls s @ [Poller_RemoveSocket, Socket_Close]
                @ (if pStreamNum s = 0 then [IncomingQueue_FailAllHandlers ?sd] else [])
                @ handler_calls ?sd (helpers s) (pOutQueue s)
                @ [Transport_Disconnect (pStreamNum s)]"
      using s3(3) n by (simp add: call_def f)
    have e: "\<forall>p. helpers ?s' p = (if p \<in> set (pOutQueue s) then None else helpers s p)"
      using s3(4) by (simp add: call_def f)
    show ?thesis using d a b c e by blast
  qed
  show ?thesis using 1 2 by blast
qed

theorem Disconnect_effect_witness:
  "pOutQueue busy_stream \<noteq> [] \<and> queue_live busy_stream
   \<and> Disconnect False busy_stream = Some busy_stream
   \<and> map_option (\<lambda>s'. (pStreamStatus s', pOutQueue s', calls s', helpers s' 1, helpers s' 2, helpers s' 3))
         (Disconnect True busy_stream)
       = Some (Disconnected, [],
               [Poller_RemoveSocket, Socket_Close,
                IncomingQueue_FailAllHandlers \<lparr>status = stError, code = errStreamDisconnect, errNo = 0\<rparr>,
                Handler_HandleStatus 21 11 \<lparr>status = stError, code = errStreamDisconnect, errNo = 0\<rparr>,
                Handler_HandleStatus 22 12 \<lparr>status = stError, code = errStreamDisconnect, errNo = 0\<rparr>,
                Handler_HandleStatus 23 13 \<lparr>status = stError, code = errStreamDisconnect, errNo = 0\<rparr>,
                Transport_Disconnect 0],
               None, None, None)"
proof -
  have q: "queue_live busy_stream"
    by (simp add: queue_live_def busy_stream_def fresh_stream_def)
  have b: "pOutQueue busy_stream = [1, 2, 3]" "calls busy_stream = []" "pStreamNum busy_stream = 0"
    "helpers busy_stream (Suc 0) = Some \<lparr>msg = 11, handler = 21, expires = 5, ownMessage = False\<rparr>"
    "helpers busy_stream 2 = Some \<lparr>msg = 12, handler = 22, expires = 5, ownMessage = False\<rparr>"
    "helpers busy_stream 3 = Some \<lparr>msg = 13, handler = 23, expires = 50, ownMessage = False\<rparr>"
    by (simp_all add: busy_stream_def fresh_stream_def)
  have n: "Disconnect False busy_stream = Some busy_stream"
    using Disconnect_effect [of False busy_stream] by (simp add: b)
  from Disconnect_effect [of True busy_stream] q obtain s' where s':
    "Disconnect True busy_stream = Some s'" "pStreamStatus s' = Disconnected" "pOutQueue s' = []"
    "calls s' = calls busy_stream @ [Poller_RemoveSocket, Socket_Close]
        @ (if pStreamNum busy_stream = 0
           then [IncomingQueue_FailAllHandlers
                   \<lparr>status = stError, code = errStreamDisconnect, errNo = 0\<rparr>] else [])
        @ handler_calls \<lparr>status = stError, code = errStreamDisconnect, errNo = 0\<rparr>
            (helpers busy_stream) (pOutQueue busy_stream)
        @ [Transport_Disconnect (pStreamNum busy_stream)]"
    "\<forall>p. helpers s' p = (if p \<in> set (pOutQueue busy_stream) then None else helpers busy_stream p)"
    by auto
  show ?thesis
    using q n s' by (simp add: b handler_calls_def)
qed

subsection \<open>Stream faults\<close>

lemma HandleStreamFault_retry:
  assumes "\<not> IsFatal st" "pConnectionCount s < pConnectionRetry s"
  shows "HandleStreamFault w st s =
     (if reconnects_at_once w s
      then map_option snd (Connect w ((fault_cleanup s)\<lparr>pStreamStatus := Connecting\<rparr>))
      else Some (call (TaskManager_RegisterTask (pConnectionInitTime s + pConnectionWindow s))
                   ((fault_cleanup s)\<lparr>pStreamStatus := Connecting\<rparr>)))"
  using assms
  by (simp add: HandleStreamFault.simps Let_def fault_cleanup_def call_def reconnects_at_once_def)

lemma HandleStreamFault_terminal:
  assumes "IsFatal st \<or> \<not> pConnectionCount s < pConnectionRetry s"
  shows "HandleStreamFault w st s = FailOutgoingHandlers st (fault_terminal w st s)"
  using assms
  by (auto simp: HandleStreamFault.simps Let_def fault_cleanup_def fault_terminal_def call_def)

lemma registered_tasks_simps [simp]:
  "registered_tasks [] = []"
  "registered_tasks (es @ fs) = registered_tasks es @ registered_tasks fs"
  "registered_tasks (TaskManager_RegisterTask t # es) = t # registered_tasks es"
  "registered_tasks (Poller_RemoveSocket # es) = registered_tasks es"
  "registered_tasks (Poller_AddSocket # es) = registered_tasks es"
  "registered_tasks (Poller_EnableWriteNotification b # es) = registered_tasks es"
  "registered_tasks (Socket_Initialize # es) = registered_tasks es"
  "registered_tasks (Socket_Connect # es) = registered_tasks es"
  "registered_tasks (Socket_Close # es) = registered_tasks es"
  "registered_tasks (Transport_Disconnect n # es) = registered_tasks es"
  "registered_tasks (IncomingQueue_FailAllHandlers st # es) = registered_tasks es"
  "registered_tasks (Handler_HandleStatus h m st # es) = registered_tasks es"
  by (simp_all add: registered_tasks_def)

lemma registered_tasks_handler_calls [simp]:
  "registered_tasks (handler_calls st hs ps) = []"
  by (induction ps) (auto simp: handler_calls_Cons split: option.splits)

lemma filter_handler_calls [simp]:
  "filter is_handler_call (handler_calls st hs ps) = handler_calls st hs ps"
  by (induction ps) (auto simp: handler_calls_Cons split: option.splits)

lemma FailOutgoingHandlers_loop_Some_live:
  "FailOutgoingHandlers_loop st its s = Some s' \<Longrightarrow>
     distinct its \<and> (\<forall>p \<in> set its. p \<noteq> 0 \<and> helpers s p \<noteq> None)"
proof (induction its arbitrary: s)
  case Nil
  then show ?case by simp
next
  case (Cons p its)
  from Cons.prems obtain h where h: "p \<noteq> 0" "helpers s p = Some h"
    and r: "FailOutgoingHandlers_loop st its (delete_OutMessageHelper p h (notify h st s)) = Some s'"
    by (auto simp: deref_def split: option.splits if_splits)
  from Cons.IH [OF r] have d: "distinct its"
    and l: "\<forall>q \<in> set its. q \<noteq> 0 \<and> ((helpers s)(p := None)) q \<noteq> None"
    by simp_all
  from l have pn: "p \<notin> set its" by auto
  from l have "\<forall>q \<in> set its. q \<noteq> 0 \<and> helpers s q \<noteq> None"
    by (auto split: if_splits)
  then show ?case using d pn h by auto
qed

lemma FailOutgoingHandlers_Some_live:
  "FailOutgoingHandlers st s = Some s' \<Longrightarrow> queue_live s"
  by (auto simp: FailOutgoingHandlers_def queue_live_def list_all_iff
      dest!: FailOutgoingHandlers_loop_Some_live)

lemma FailOutgoingHandlers_Some:
  assumes "FailOutgoingHandlers st s = Some s'"
  shows "pOutQueue s' = []"
    "calls s' = calls s @ handler_calls st (helpers s) (pOutQueue s)"
    "\<forall>p. helpers s' p = (if p \<in> set (pOutQueue s) then None else helpers s p)"
    "same_but_heap (s\<lparr>pOutQueue := []\<rparr>) s'"
  using FailOutgoingHandlers_result [OF FailOutgoingHandlers_Some_live [OF assms], of st] assms
  by auto

lemma queue_live_cong:
  "pOutQueue s' = pOutQueue s \<Longrightarrow> helpers s' = helpers s \<Longrightarrow> queue_live s' = queue_live s"
  by (simp add: queue_live_def)

lemma fault_terminal_fields [simp]:
  "pOutQueue (fault_terminal w st s) = pOutQueue s"
  "helpers (fault_terminal w st s) = helpers s"
  "messages (fault_terminal w st s) = messages s"
  "pStreamStatus (fault_terminal w st s) = Error"
  "pErrorTime (fault_terminal w st s) = clock w"
  "pLastStreamError (fault_terminal w st s) = code st"
  "pConnectionCount (fault_terminal w st s) = pConnectionCount s"
  "pConnectionRetry (fault_terminal w st s) = pConnectionRetry s"
  "pStreamNum (fault_terminal w st s) = pStreamNum s"
  "calls (fault_terminal w st s) =
     calls s @ [Poller_RemoveSocket, Socket_Close, Transport_Disconnect (pStreamNum s)]
       @ (if pStreamNum s = 0 then [IncomingQueue_FailAllHandlers st] else [])"
  by (simp_all add: fault_terminal_def fault_cleanup_def call_def Let_def)

lemma fault_cleanup_fields [simp]:
  "pOutQueue (fault_cleanup s) = pOutQueue s"
  "helpers (fault_cleanup s) = helpers s"
  "messages (fault_cleanup s) = messages s"
  "pConnectionCount (fault_cleanup s) = pConnectionCount s"
  "pConnectionRetry (fault_cleanup s) = pConnectionRetry s"
  "pStreamNum (fault_cleanup s) = pStreamNum s"
  "pCurrentOut (fault_cleanup s) = 0"
  "calls (fault_cleanup s) =
     calls s @ [Poller_RemoveSocket, Socket_Close, Transport_Disconnect (pStreamNum s)]"
  by (simp_all add: fault_cleanup_def call_def)

lemma same_but_heap_pOutQueue_fields:
  assumes "same_but_heap (s\<lparr>pOutQueue := []\<rparr>) s'"
  shows "pStreamNum s' = pStreamNum s" "pStreamStatus s' = pStreamStatus s"
    "pConnectionCount s' = pConnectionCount s" "pConnectionRetry s' = pConnectionRetry s"
    "pErrorTime s' = pErrorTime s" "pLastStreamError s' = pLastStreamError s"
  using same_but_heap_fields [OF assms] by simp_all

text \<open>The terminal branch of a fault.\<close>

lemma HandleStreamFault_terminal_Some:
  assumes "IsFatal st \<or> \<not> pConnectionCount s < pConnectionRetry s"
    and "HandleStreamFault w st s = Some s'"
  shows "pStreamStatus s' = Error" "pErrorTime s' = clock w" "pLastStreamError s' = code st"
    "pConnectionCount s' = pConnectionCount s" "pConnectionRetry s' = pConnectionRetry s"
    "pOutQueue s' = []"
    "calls s' = calls s @ [Poller_RemoveSocket, Socket_Close, Transport_Disconnect (pStreamNum s)]
       @ (if pStreamNum s = 0 then [IncomingQueue_FailAllHandlers st] else [])
       @ handler_calls st (helpers s) (pOutQueue s)"
    "\<forall>p. helpers s' p = (if p \<in> set (pOutQueue s) then None else helpers s p)"
    "queue_live s" "queue_live s'"
proof -
  have f: "FailOutgoingHandlers st (fault_terminal w st s) = Some s'"
    using assms HandleStreamFault_terminal [OF assms(1), of w] by simp
  note r = FailOutgoingHandlers_Some [OF f]
  note g = same_but_heap_pOutQueue_fields [OF r(4)]
  show "pStreamStatus s' = Error" using g(2) by simp
  show "pErrorTime s' = clock w" using g(5) by simp
  show "pLastStreamError s' = code st" using g(6) by simp
  show "pConnectionCount s' = pConnectionCount s" using g(3) by simp
  show "pConnectionRetry s' = pConnectionRetry s" using g(4) by simp
  show "pOutQueue s' = []" by (rule r(1))
  show "calls s' = calls s @ [Poller_RemoveSocket, Socket_Close, Transport_Disconnect (pStreamNum s)]
       @ (if pStreamNum s = 0 then [IncomingQueue_FailAllHandlers st] else [])
       @ handler_calls st (helpers s) (pOutQueue s)"
    using r(2) by simp
  show "\<forall>p. helpers s' p = (if p \<in> set (pOutQueue s) then None else helpers s p)"
    using r(3) by simp
  show "queue_live s"
    using FailOutgoingHandlers_Some_live [OF f] by (simp add: queue_live_def)
  show "queue_live s'" using r(1) by (simp add: queue_live_def)
qed

lemma HandleStreamFault_terminal_returns:
  assumes "IsFatal st \<or> \<not> pConnectionCount s < pConnectionRetry s" and "queue_live s"
  shows "\<exists>s'. HandleStreamFault w st s = Some s'"
proof -
  have "queue_live (fault_terminal w st s)"
    using assms(2) by (simp add: queue_live_def)
  from FailOutgoingHandlers_result [OF this, of st] show ?thesis
    using HandleStreamFault_terminal [OF assms(1), of w] by auto
qed

lemma IsFatal_fatal_poller [simp]: "IsFatal fatal_poller"
  by (simp add: fatal_poller_def IsFatal_def)

lemma connect_begun_fields [simp]:
  "pOutQueue (connect_begun w s) = pOutQueue s"
  "helpers (connect_begun w s) = helpers s"
  "messages (connect_begun w s) = messages s"
  "pConnectionCount (connect_begun w s) = pConnectionCount s + 1"
  "pConnectionRetry (connect_begun w s) = pConnectionRetry s"
  "pStreamNum (connect_begun w s) = pStreamNum s"
  "pStreamStatus (connect_begun w s) = Connecting"
  "pConnectionInitTime (connect_begun w s) = clock w"
  "calls (connect_begun w s) = calls s @ [Socket_Initialize, Socket_Connect]"
  by (simp_all add: connect_begun_def call_def)

lemma Connect_socket_fails:
  assumes "\<not> (IsOK (Socket_Initialize_result w) \<and> IsOK (Socket_Connect_result w))"
  shows "\<exists>r s'. Connect w s = Some (r, s') \<and> \<not> IsOK r \<and> pStreamStatus s' = Error
           \<and> pConnectionCount s' = pConnectionCount s + 1
           \<and> pConnectionRetry s' = pConnectionRetry s
           \<and> pOutQueue s' = pOutQueue s \<and> helpers s' = helpers s \<and> messages s' = messages s
           \<and> (calls s' = calls s @ [Socket_Initialize]
                \<or> calls s' = calls s @ [Socket_Initialize, Socket_Connect])"
  using assms by (auto simp: Connect.simps Let_def call_def)

lemma Connect_poller_accepts:
  assumes "IsOK (Socket_Initialize_result w)" "IsOK (Socket_Connect_result w)"
    "Poller_AddSocket_result w" "Poller_EnableWriteNotification_result w"
  shows "Connect w s =
     Some (\<lparr>status = stOK, code = noCode, errNo = 0\<rparr>,
           call (Poller_EnableWriteNotification (pTimeoutResolution s \<noteq> 0))
             (call Poller_AddSocket (connect_begun w s)))"
  using assms by (simp add: Connect.simps Let_def call_def connect_begun_def)

lemma connect_refused_fields [simp]:
  "pOutQueue (connect_refused w s) = pOutQueue s"
  "helpers (connect_refused w s) = helpers s"
  "messages (connect_refused w s) = messages s"
  "pConnectionCount (connect_refused w s) = pConnectionCount s + 1"
  "pConnectionRetry (connect_refused w s) = pConnectionRetry s"
  "pStreamNum (connect_refused w s) = pStreamNum s"
  "calls (connect_refused w s) =
     calls s @ [Socket_Initialize, Socket_Connect, Poller_AddSocket]
       @ (if Poller_AddSocket_result w
          then [Poller_EnableWriteNotification (pTimeoutResolution s \<noteq> 0)] else [])"
  by (simp_all add: connect_refused_def call_def)

lemma queue_live_connect_refused [simp]:
  "queue_live (connect_refused w s) = queue_live s"
  by (simp add: queue_live_def)

lemma Connect_poller_refuses:
  assumes "poller_refuses w"
  shows "Connect w s =
     map_option (Pair fatal_poller) (HandleStreamFault w fatal_poller (connect_refused w s))"
  using assms
  by (auto simp: Connect.simps Let_def call_def connect_begun_def connect_refused_def
      poller_refuses_def fatal_poller_def)

lemma queue_intactI:
  assumes "pOutQueue s' = pOutQueue s" "helpers s' = helpers s" "messages s' = messages s"
    "calls s' = calls s @ es" "filter is_handler_call es = []"
  shows "queue_intact s s'"
  using assms by (simp add: queue_intact_def)

lemma Connect_Some:
  assumes "Connect w s = Some (r, s')"
  shows "pConnectionCount s' = pConnectionCount s + 1"
    and "pConnectionRetry s' = pConnectionRetry s"
    and "\<exists>es. calls s' = calls s @ es \<and> registered_tasks es = []"
    and "poller_refuses w \<longrightarrow> pStreamStatus s' = Error \<and> pOutQueue s' = []
           \<and> pErrorTime s' = clock w \<and> queue_live s"
    and "\<not> poller_refuses w \<longrightarrow> queue_intact s s'"
    and "queue_live s \<longrightarrow> queue_live s'"
proof -
  consider (sock) "\<not> (IsOK (Socket_Initialize_result w) \<and> IsOK (Socket_Connect_result w))"
    | (acc) "IsOK (Socket_Initialize_result w)" "IsOK (Socket_Connect_result w)"
        "Poller_AddSocket_result w" "Poller_EnableWriteNotification_result w"
    | (ref) "poller_refuses w"
    by (auto simp: poller_refuses_def)
  then have "pConnectionCount s' = pConnectionCount s + 1
    \<and> pConnectionRetry s' = pConnectionRetry s
    \<and> (\<exists>es. calls s' = calls s @ es \<and> registered_tasks es = [])
    \<and> (poller_refuses w \<longrightarrow> pStreamStatus s' = Error \<and> pOutQueue s' = []
           \<and> pErrorTime s' = clock w \<and> queue_live s)
    \<and> (\<not> poller_refuses w \<longrightarrow> queue_intact s s')
    \<and> (queue_live s \<longrightarrow> queue_live s')"
  proof cases
    case sock
    from Connect_socket_fails [OF sock, of s] assms
    have f: "pConnectionCount s' = pConnectionCount s + 1" "pConnectionRetry s' = pConnectionRetry s"
      "pOutQueue s' = pOutQueue s" "helpers s' = helpers s" "messages s' = messages s"
      "calls s' = calls s @ [Socket_Initialize] \<or> calls s' = calls s @ [Socket_Initialize, Socket_Connect]"
      by auto
    have np: "\<not> poller_refuses w" using sock by (auto simp: poller_refuses_def)
    have t: "\<exists>es. calls s' = calls s @ es \<and> registered_tasks es = []"
      using f(6) by auto
    have i: "queue_intact s s'"
      using f(3,4,5,6) by (auto simp: queue_intact_def)
    have l: "queue_live s \<longrightarrow> queue_live s'"
      using f(3,4) by (simp add: queue_live_def)
    show ?thesis using f(1,2) np t i l by simp
  next
    case acc
    have e: "s' = call (Poller_EnableWriteNotification (pTimeoutResolution s \<noteq> 0))
             (call Poller_AddSocket (connect_begun w s))"
      using Connect_poller_accepts [OF acc, of s] assms by simp
    have f: "pConnectionCount s' = pConnectionCount s + 1" "pConnectionRetry s' = pConnectionRetry s"
      "pOutQueue s' = pOutQueue s" "helpers s' = helpers s" "messages s' = messages s"
      "calls s' = calls s @ [Socket_Initialize, Socket_Connect, Poller_AddSocket,
                             Poller_EnableWriteNotification (pTimeoutResolution s \<noteq> 0)]"
      unfolding e by (simp_all add: call_def)
    have np: "\<not> poller_refuses w" using acc by (simp add: poller_refuses_def)
    have t: "\<exists>es. calls s' = calls s @ es \<and> registered_tasks es = []"
      using f(6) by simp
    have i: "queue_intact s s'"
      using f(3,4,5,6) by (simp add: queue_intact_def)
    have l: "queue_live s \<longrightarrow> queue_live s'"
      using f(3,4) by (simp add: queue_live_def)
    show ?thesis using f(1,2) np t i l by simp
  next
    case ref
    have h: "HandleStreamFault w fatal_poller (connect_refused w s) = Some s'"
      using Connect_poller_refuses [OF ref, of s] assms
      by (cases "HandleStreamFault w fatal_poller (connect_refused w s)") auto
    have c: "IsFatal fatal_poller \<or> \<not> pConnectionCount (connect_refused w s) < pConnectionRetry (connect_refused w s)"
      by simp
    note r = HandleStreamFault_terminal_Some [OF c h]
    have t: "\<exists>es. calls s' = calls s @ es \<and> registered_tasks es = []"
      using r(7) by simp
    show ?thesis using r(1,2,4,5,6,9,10) ref t by simp
  qed
  then show "pConnectionCount s' = pConnectionCount s + 1"
    and "pConnectionRetry s' = pConnectionRetry s"
    and "\<exists>es. calls s' = calls s @ es \<and> registered_tasks es = []"
    and "poller_refuses w \<longrightarrow> pStreamStatus s' = Error \<and> pOutQueue s' = []
           \<and> pErrorTime s' = clock w \<and> queue_live s"
    and "\<not> poller_refuses w \<longrightarrow> queue_intact s s'"
    and "queue_live s \<longrightarrow> queue_live s'"
    by simp_all
qed

lemma Connect_returns:
  assumes "queue_live s \<or> \<not> poller_refuses w"
  shows "\<exists>r s'. Connect w s = Some (r, s')"
proof (cases "poller_refuses w")
  case True
  then have l: "queue_live (connect_refused w s)" using assms by simp
  have c: "IsFatal fatal_poller \<or> \<not> pConnectionCount (connect_refused w s) < pConnectionRetry (connect_refused w s)"
    by simp
  from HandleStreamFault_terminal_returns [OF c l, of w] show ?thesis
    using Connect_poller_refuses [OF True, of s] by auto
next
  case False
  then consider "\<not> (IsOK (Socket_Initialize_result w) \<and> IsOK (Socket_Connect_result w))"
    | "IsOK (Socket_Initialize_result w) \<and> IsOK (Socket_Connect_result w)
        \<and> Poller_AddSocket_result w \<and> Poller_EnableWriteNotification_result w"
    by (auto simp: poller_refuses_def)
  then show ?thesis
  proof cases
    case 1
    from Connect_socket_fails [OF 1, of s] show ?thesis by blast
  next
    case 2
    then show ?thesis using Connect_poller_accepts [of w s] by simp
  qed
qed

lemma retrying_fields [simp]:
  "pOutQueue (retrying s) = pOutQueue s"
  "helpers (retrying s) = helpers s"
  "messages (retrying s) = messages s"
  "pConnectionCount (retrying s) = pConnectionCount s"
  "pConnectionRetry (retrying s) = pConnectionRetry s"
  "pStreamStatus (retrying s) = Connecting"
  "pStreamNum (retrying s) = pStreamNum s"
  "calls (retrying s) =
     calls s @ [Poller_RemoveSocket, Socket_Close, Transport_Disconnect (pStreamNum s)]"
  by (simp_all add: retrying_def)

lemma queue_live_retrying [simp]: "queue_live (retrying s) = queue_live s"
  by (simp add: queue_live_def)

lemma HandleStreamFault_retry':
  assumes "\<not> IsFatal st" "pConnectionCount s < pConnectionRetry s"
  shows "HandleStreamFault w st s =
     (if reconnects_at_once w s then map_option snd (Connect w (retrying s))
      else Some (call (TaskManager_RegisterTask (pConnectionInitTime s + pConnectionWindow s))
                   (retrying s)))"
  using HandleStreamFault_retry [OF assms] by (simp add: retrying_def)

lemma queue_intact_retrying:
  assumes "queue_intact (retrying s) s'" "calls s' = calls (retrying s) @ es"
  shows "queue_intact s s'"
  using assms by (simp add: queue_intact_def)

text \<open>The retry branch: what a fault that retries leaves.\<close>

lemma HandleStreamFault_retry_Some:
  assumes "\<not> IsFatal st" "pConnectionCount s < pConnectionRetry s"
    and "HandleStreamFault w st s = Some s'"
  shows "pConnectionRetry s' = pConnectionRetry s"
    and "pConnectionCount s' = (if reconnects_at_once w s then pConnectionCount s + 1 else pConnectionCount s)"
    and "\<exists>es. calls s' = calls s @ es
           \<and> registered_tasks es = (if reconnects_at_once w s then []
                                     else [pConnectionInitTime s + pConnectionWindow s])"
    and "reconnects_at_once w s \<and> poller_refuses w \<longrightarrow>
           pStreamStatus s' = Error \<and> pOutQueue s' = [] \<and> pErrorTime s' = clock w \<and> queue_live s"
    and "\<not> (reconnects_at_once w s \<and> poller_refuses w) \<longrightarrow> queue_intact s s'"
    and "queue_live s \<longrightarrow> queue_live s'"
proof -
  note e = HandleStreamFault_retry' [OF assms(1,2), of w]
  have "pConnectionRetry s' = pConnectionRetry s
    \<and> pConnectionCount s' = (if reconnects_at_once w s then pConnectionCount s + 1 else pConnectionCount s)
    \<and> (\<exists>es. calls s' = calls s @ es
           \<and> registered_tasks es = (if reconnects_at_once w s then []
                                     else [pConnectionInitTime s + pConnectionWindow s]))
    \<and> (reconnects_at_once w s \<and> poller_refuses w \<longrightarrow>
           pStreamStatus s' = Error \<and> pOutQueue s' = [] \<and> pErrorTime s' = clock w \<and> queue_live s)
    \<and> (\<not> (reconnects_at_once w s \<and> poller_refuses w) \<longrightarrow> queue_intact s s')
    \<and> (queue_live s \<longrightarrow> queue_live s')"
  proof (cases "reconnects_at_once w s")
    case True
    then obtain r where c: "Connect w (retrying s) = Some (r, s')"
      using e assms(3) by (cases "Connect w (retrying s)") auto
    note k = Connect_Some [OF c]
    from k(3) obtain es where es: "calls s' = calls (retrying s) @ es" "registered_tasks es = []"
      by blast
    have t: "\<exists>es. calls s' = calls s @ es \<and> registered_tasks es = []"
      using es by simp
    have i: "\<not> poller_refuses w \<longrightarrow> queue_intact s s'"
      using k(5) queue_intact_retrying [OF _ es(1)] by blast
    show ?thesis using True k(1,2,4,6) t i by simp
  next
    case False
    then have s': "s' = call (TaskManager_RegisterTask (pConnectionInitTime s + pConnectionWindow s)) (retrying s)"
      using e assms(3) by simp
    have f: "pOutQueue s' = pOutQueue s" "helpers s' = helpers s" "messages s' = messages s"
      "pConnectionCount s' = pConnectionCount s" "pConnectionRetry s' = pConnectionRetry s"
      "calls s' = calls s @ [Poller_RemoveSocket, Socket_Close, Transport_Disconnect (pStreamNum s),
         TaskManager_RegisterTask (pConnectionInitTime s + pConnectionWindow s)]"
      unfolding s' by (simp_all add: call_def)
    have t: "\<exists>es. calls s' = calls s @ es
           \<and> registered_tasks es = [pConnectionInitTime s + pConnectionWindow s]"
      using f(6) by simp
    have i: "queue_intact s s'" using f by (simp add: queue_intact_def)
    have l: "queue_live s \<longrightarrow> queue_live s'" using f by (simp add: queue_live_def)
    show ?thesis using False f(4,5) t i l by simp
  qed
  then show "pConnectionRetry s' = pConnectionRetry s"
    and "pConnectionCount s' = (if reconnects_at_once w s then pConnectionCount s + 1 else pConnectionCount s)"
    and "\<exists>es. calls s' = calls s @ es
           \<and> registered_tasks es = (if reconnects_at_once w s then []
                                     else [pConnectionInitTime s + pConnectionWindow s])"
    and "reconnects_at_once w s \<and> poller_refuses w \<longrightarrow>
           pStreamStatus s' = Error \<and> pOutQueue s' = [] \<and> pErrorTime s' = clock w \<and> queue_live s"
    and "\<not> (reconnects_at_once w s \<and> poller_refuses w) \<longrightarrow> queue_intact s s'"
    and "queue_live s \<longrightarrow> queue_live s'"
    by simp_all
qed

lemma HandleStreamFault_retry_returns:
  assumes "\<not> IsFatal st" "pConnectionCount s < pConnectionRetry s"
    and "queue_live s \<or> \<not> (reconnects_at_once w s \<and> poller_refuses w)"
  shows "\<exists>s'. HandleStreamFault w st s = Some s'"
proof (cases "reconnects_at_once w s")
  case True
  then have "queue_live (retrying s) \<or> \<not> poller_refuses w" using assms(3) by auto
  from Connect_returns [OF this] show ?thesis
    using HandleStreamFault_retry' [OF assms(1,2), of w] True by auto
next
  case False
  then show ?thesis using HandleStreamFault_retry' [OF assms(1,2), of w] by simp
qed

text \<open>What a terminal branch does to the user queue, and the retry that the poller refuses.\<close>

lemma HandleStreamFault_terminal_fails:
  assumes "IsFatal st \<or> \<not> pConnectionCount s < pConnectionRetry s"
    and "HandleStreamFault w st s = Some s'"
  shows "handlers_failed st s s'"
proof -
  note r = HandleStreamFault_terminal_Some [OF assms]
  have "filter is_handler_call (drop (length (calls s)) (calls s'))
          = handler_calls st (helpers s) (pOutQueue s)"
    unfolding r(7) by simp
  then show ?thesis using r(6,8) by (simp add: handlers_failed_def fun_eq_iff)
qed

lemma HandleStreamFault_retry_refused:
  assumes "\<not> IsFatal st" "pConnectionCount s < pConnectionRetry s"
    and "reconnects_at_once w s" "poller_refuses w"
    and "HandleStreamFault w st s = Some s'"
  shows "handlers_failed fatal_poller s s'"
proof -
  let ?s1 = "connect_refused w (retrying s)"
  have "map_option snd (Connect w (retrying s)) = Some s'"
    using HandleStreamFault_retry' [OF assms(1,2), of w] assms(3,5) by simp
  then have h: "HandleStreamFault w fatal_poller ?s1 = Some s'"
    unfolding Connect_poller_refuses [OF assms(4)]
    by (cases "HandleStreamFault w fatal_poller ?s1") auto
  have c: "IsFatal fatal_poller \<or> \<not> pConnectionCount ?s1 < pConnectionRetry ?s1"
    by simp
  note r = HandleStreamFault_terminal_Some [OF c h]
  have "filter is_handler_call (drop (length (calls s)) (calls s'))
          = handler_calls fatal_poller (helpers s) (pOutQueue s)"
    unfolding r(7) by simp
  then show ?thesis using r(6,8) by (simp add: handlers_failed_def fun_eq_iff)
qed

text \<open>
  Claim C10, amended. When \<open>HandleStreamFault\<close> takes the retry path (a status that is
  not fatal, \<open>pConnectionCount < pConnectionRetry\<close>) it returns with the user queue
  intact (no slot removed or deleted, no handler called), unless it reconnects at once
  and the poller refuses the socket: then \<^verbatim>\<open>Connect\<close> raises a fatal fault, whose
  terminal branch fails the handlers of the queue with that fatal status, deletes the
  queued slots, clears the queue and sets the status \<open>Error\<close>. The terminal branch itself
  (a fatal status, or no attempt left) does the same with the status of the fault. On
  every path the queue is touched only by a terminal branch: if the queue is not intact
  after \<open>HandleStreamFault\<close>, the status is \<open>Error\<close>, the error time is stamped and the
  handlers were failed.
\<close>

theorem HandleStreamFault_retry_queue:
  "(\<not> IsFatal st \<and> pConnectionCount s < pConnectionRetry s
      \<and> \<not> (reconnects_at_once w s \<and> poller_refuses w)
     \<longrightarrow> (\<exists>s'. HandleStreamFault w st s = Some s' \<and> queue_intact s s'))
   \<and> (\<not> IsFatal st \<and> pConnectionCount s < pConnectionRetry s
        \<and> reconnects_at_once w s \<and> poller_refuses w \<and> queue_live s
       \<longrightarrow> (\<exists>s'. HandleStreamFault w st s = Some s' \<and> pStreamStatus s' = Error
                 \<and> pOutQueue s' = [] \<and> pErrorTime s' = clock w
                 \<and> handlers_failed fatal_poller s s'))
   \<and> ((IsFatal st \<or> \<not> pConnectionCount s < pConnectionRetry s) \<and> queue_live s
       \<longrightarrow> (\<exists>s'. HandleStreamFault w st s = Some s' \<and> pStreamStatus s' = Error
                 \<and> pOutQueue s' = [] \<and> pErrorTime s' = clock w
                 \<and> handlers_failed st s s'))
   \<and> (\<forall>s'. HandleStreamFault w st s = Some s' \<and> \<not> queue_intact s s'
             \<longrightarrow> pStreamStatus s' = Error \<and> pErrorTime s' = clock w
                 \<and> handlers_failed
                      (if \<not> IsFatal st \<and> pConnectionCount s < pConnectionRetry s
                       then fatal_poller else st) s s')"
proof -
  have 1: "\<exists>s'. HandleStreamFault w st s = Some s' \<and> queue_intact s s'"
    if h: "\<not> IsFatal st" "pConnectionCount s < pConnectionRetry s"
      "\<not> (reconnects_at_once w s \<and> poller_refuses w)"
  proof -
    from HandleStreamFault_retry_returns [OF h(1,2), of w] h(3)
    obtain s' where s': "HandleStreamFault w st s = Some s'" by auto
    from HandleStreamFault_retry_Some(5) [OF h(1,2) s'] h(3) show ?thesis using s' by auto
  qed
  have 2: "\<exists>s'. HandleStreamFault w st s = Some s' \<and> pStreamStatus s' = Error
                 \<and> pOutQueue s' = [] \<and> pErrorTime s' = clock w
                 \<and> handlers_failed fatal_poller s s'"
    if h: "\<not> IsFatal st" "pConnectionCount s < pConnectionRetry s"
      "reconnects_at_once w s" "poller_refuses w" "queue_live s"
  proof -
    from HandleStreamFault_retry_returns [OF h(1,2), of w] h(5)
    obtain s' where s': "HandleStreamFault w st s = Some s'" by auto
    from HandleStreamFault_retry_Some(4) [OF h(1,2) s'] h(3,4)
      HandleStreamFault_retry_refused [OF h(1,2,3,4) s']
    show ?thesis using s' by auto
  qed
  have 3: "\<exists>s'. HandleStreamFault w st s = Some s' \<and> pStreamStatus s' = Error
                 \<and> pOutQueue s' = [] \<and> pErrorTime s' = clock w
                 \<and> handlers_failed st s s'"
    if h: "IsFatal st \<or> \<not> pConnectionCount s < pConnectionRetry s" "queue_live s"
  proof -
    from HandleStreamFault_terminal_returns [OF h, of w]
    obtain s' where s': "HandleStreamFault w st s = Some s'" by auto
    from HandleStreamFault_terminal_Some(1,2,6) [OF h(1) s']
      HandleStreamFault_terminal_fails [OF h(1) s']
    show ?thesis using s' by auto
  qed
  have 4: "pStreamStatus s' = Error \<and> pErrorTime s' = clock w
           \<and> handlers_failed
                (if \<not> IsFatal st \<and> pConnectionCount s < pConnectionRetry s
                 then fatal_poller else st) s s'"
    if h: "HandleStreamFault w st s = Some s'" "\<not> queue_intact s s'" for s'
  proof (cases "\<not> IsFatal st \<and> pConnectionCount s < pConnectionRetry s")
    case True
    then have a: "\<not> IsFatal st" "pConnectionCount s < pConnectionRetry s" by simp_all
    from HandleStreamFault_retry_Some(5) [OF a h(1)] h(2)
    have b: "reconnects_at_once w s" "poller_refuses w" by auto
    from HandleStreamFault_retry_Some(4) [OF a h(1)] b
      HandleStreamFault_retry_refused [OF a b h(1)] True
    show ?thesis by simp
  next
    case False
    then have c: "IsFatal st \<or> \<not> pConnectionCount s < pConnectionRetry s" by auto
    from HandleStreamFault_terminal_Some(1,2) [OF c h(1)]
      HandleStreamFault_terminal_fails [OF c h(1)] False
    show ?thesis by auto
  qed
  show ?thesis using 1 2 3 4 by blast
qed

text \<open>
  Claim C10 as stated fails. A connection fault at second 30 on a stream that has made
  1 of its 3 attempts is on the retry path and reconnects at once; the poller refuses
  the socket, and both queued handlers are failed with the fatal status, the slots are
  deleted and the queue is empty.
\<close>

theorem HandleStreamFault_retry_fails_handlers:
  "map_option (\<lambda>s'. (pStreamStatus s', pOutQueue s', filter is_handler_call (calls s'),
                       helpers s' 2, helpers s' 3))
     (HandleStreamFault (refusing_world 30)
        \<lparr>status = stError, code = errConnectionError, errNo = 0\<rparr> connecting_stream)
   = Some (Error, [],
           [Handler_HandleStatus 22 12 \<lparr>status = stFatal, code = errPollerError, errNo = 0\<rparr>,
            Handler_HandleStatus 23 13 \<lparr>status = stFatal, code = errPollerError, errNo = 0\<rparr>],
           None, None)"
  by (simp add: HandleStreamFault.simps Connect.simps FailOutgoingHandlers_def Let_def call_def
      IsFatal_def IsOK_def deref_def notify_def delete_OutMessageHelper_def
      refusing_world_def quiet_world_def connecting_stream_def fresh_stream_def)

theorem HandleStreamFault_retry_queue_witness:
  "\<not> IsFatal \<lparr>status = stError, code = errConnectionError, errNo = 0\<rparr>
   \<and> pConnectionCount connecting_stream < pConnectionRetry connecting_stream
   \<and> reconnects_at_once (quiet_world 30) connecting_stream
   \<and> \<not> poller_refuses (quiet_world 30)
   \<and> (\<exists>s'. HandleStreamFault (quiet_world 30)
               \<lparr>status = stError, code = errConnectionError, errNo = 0\<rparr> connecting_stream = Some s'
            \<and> queue_intact connecting_stream s')
   \<and> reconnects_at_once (refusing_world 30) connecting_stream
   \<and> poller_refuses (refusing_world 30) \<and> queue_live connecting_stream
   \<and> (\<exists>s'. HandleStreamFault (refusing_world 30)
               \<lparr>status = stError, code = errConnectionError, errNo = 0\<rparr> connecting_stream = Some s'
            \<and> pStreamStatus s' = Error \<and> pOutQueue s' = [] \<and> pErrorTime s' = 30
            \<and> handlers_failed fatal_poller connecting_stream s')
   \<and> IsFatal \<lparr>status = stFatal, code = errSocketError, errNo = 104\<rparr>
   \<and> (\<exists>s'. HandleStreamFault (quiet_world 30)
               \<lparr>status = stFatal, code = errSocketError, errNo = 104\<rparr> connecting_stream = Some s'
            \<and> pStreamStatus s' = Error \<and> pOutQueue s' = [] \<and> pErrorTime s' = 30
            \<and> handlers_failed \<lparr>status = stFatal, code = errSocketError, errNo = 104\<rparr>
                 connecting_stream s')
   \<and> handler_calls fatal_poller (helpers connecting_stream) (pOutQueue connecting_stream)
       = [Handler_HandleStatus 22 12 \<lparr>status = stFatal, code = errPollerError, errNo = 0\<rparr>,
          Handler_HandleStatus 23 13 \<lparr>status = stFatal, code = errPollerError, errNo = 0\<rparr>]"
proof -
  let ?st = "\<lparr>status = stError, code = errConnectionError, errNo = 0\<rparr>"
  let ?ft = "\<lparr>status = stFatal, code = errSocketError, errNo = 104\<rparr>"
  have a: "\<not> IsFatal ?st" "IsFatal ?ft" by (simp_all add: IsFatal_def)
  have b: "pConnectionCount connecting_stream < pConnectionRetry connecting_stream"
    by (simp add: connecting_stream_def fresh_stream_def)
  have c: "reconnects_at_once (quiet_world 30) connecting_stream"
    "reconnects_at_once (refusing_world 30) connecting_stream"
    by (simp_all add: reconnects_at_once_def connecting_stream_def fresh_stream_def
        quiet_world_def refusing_world_def)
  have d: "\<not> poller_refuses (quiet_world 30)" "poller_refuses (refusing_world 30)"
    by (simp_all add: poller_refuses_def quiet_world_def refusing_world_def IsOK_def)
  have e: "queue_live connecting_stream"
    by (simp add: queue_live_def connecting_stream_def fresh_stream_def)
  have k: "clock (refusing_world 30) = 30" "clock (quiet_world 30) = 30"
    by (simp_all add: refusing_world_def quiet_world_def)
  have l: "handler_calls fatal_poller (helpers connecting_stream) (pOutQueue connecting_stream)
       = [Handler_HandleStatus 22 12 \<lparr>status = stFatal, code = errPollerError, errNo = 0\<rparr>,
          Handler_HandleStatus 23 13 \<lparr>status = stFatal, code = errPollerError, errNo = 0\<rparr>]"
    by (simp add: handler_calls_def fatal_poller_def connecting_stream_def fresh_stream_def)
  show ?thesis
    using HandleStreamFault_retry_queue [of ?st connecting_stream "quiet_world 30"]
      HandleStreamFault_retry_queue [of ?st connecting_stream "refusing_world 30"]
      HandleStreamFault_retry_queue [of ?ft connecting_stream "quiet_world 30"]
      a b c d e k l by simp
qed

subsection \<open>Fault chains and the reconnection budget\<close>

lemma drop_calls: "calls s' = calls s @ es \<Longrightarrow> drop (length (calls s)) (calls s') = es"
  by simp






subsection \<open>The error window\<close>

lemma CheckConnection_Error:
  assumes "pStreamStatus s = Error"
  shows "CheckConnection w s =
     (if clock w - pErrorTime s > pStreamErrorWindow s
      then Some (\<lparr>status = stError, code = noCode, errNo = 0\<rparr>, s) else Connect w s)"
  using assms by (simp add: CheckConnection_def)

text \<open>
  Claim C1 fails on the code. On a stream that gave up at second 1000, with an error
  window of 1800 seconds, \<open>CheckConnection\<close> at second 1010 (inside the window) does not
  reject: it calls \<^verbatim>\<open>Connect\<close> and returns its status, so that \<open>QueueOut\<close> queues the
  message and calls no handler. At second 5000 (the window is over) it rejects with
  \<open>stError\<close> without calling \<^verbatim>\<open>Connect\<close>, and \<open>QueueOut\<close> hands that status to the
  handler. The comparison in \<^verbatim>\<open>CheckConnection\<close> is the reverse of the one claimed.
\<close>

theorem CheckConnection_error_window_reversed:
  "CheckConnection (quiet_world 1010) failed_stream =
     Some (\<lparr>status = stOK, code = noCode, errNo = 0\<rparr>,
           failed_stream\<lparr>pStreamStatus := Connecting, pConnectionCount := 4,
             pConnectionInitTime := 1010,
             calls := [Socket_Initialize, Socket_Connect, Poller_AddSocket,
                       Poller_EnableWriteNotification True]\<rparr>)
   \<and> CheckConnection (quiet_world 5000) failed_stream =
       Some (\<lparr>status = stError, code = noCode, errNo = 0\<rparr>, failed_stream)
   \<and> map_option (\<lambda>(sc, s'). (sc, pStreamStatus s', pOutQueue s', calls s'))
         (QueueOut (quiet_world 1010) 7 8 60 failed_stream) =
       Some (\<lparr>status = stOK, code = noCode, errNo = 0\<rparr>, Connecting, [100],
             [Socket_Initialize, Socket_Connect, Poller_AddSocket,
              Poller_EnableWriteNotification True])
   \<and> map_option (\<lambda>(sc, s'). (sc, pStreamStatus s', pOutQueue s', calls s'))
         (QueueOut (quiet_world 5000) 7 8 60 failed_stream) =
       Some (\<lparr>status = stError, code = noCode, errNo = 0\<rparr>, Error, [],
             [Handler_HandleStatus 8 7 \<lparr>status = stError, code = noCode, errNo = 0\<rparr>])"
  by (simp add: QueueOut_def CheckConnection_def Connect.simps Let_def call_def IsOK_def
      quiet_world_def failed_stream_def fresh_stream_def)

subsection \<open>Writing a message: the cursor\<close>

lemma word_of_int_write_status:
  "(word_of_int (write_status r) :: 32 word) = word_of_int r"
  by (simp add: write_status_def)

text \<open>A return value that an \<^verbatim>\<open>int\<close> holds is the status the loop reads.\<close>

lemma write_status_in_range:
  "- 2147483648 \<le> r \<Longrightarrow> r \<le> 2147483647 \<Longrightarrow> write_status r = r"
  unfolding write_status_def by (simp add: sint_sbintrunc' signed_take_bit_int_eq_self)

text \<open>
  The loop invariant: after \<open>n\<close> writes that succeed without finishing the message, the
  loop stands at the \<open>n\<close>-th write with the cursor moved by the bytes written and as
  many bytes less to write.
\<close>

lemma WriteMessage_loop_steps:
  assumes "m \<noteq> 0" and "messages s m = Some mg"
    and "\<forall>i<n. 0 < write_status (fst (wr (k + i)))"
    and "\<forall>j<n. written wr k j \<noteq> left"
  shows "WriteMessage_loop wr k m left s =
         WriteMessage_loop wr (k + n) m (left - written wr k n)
           (s\<lparr>messages := (messages s)(m \<mapsto> mg\<lparr>msgCursor := msgCursor mg + written wr k n\<rparr>),
              calls := calls s @ write_log wr k n (msgCursor mg) left\<rparr>)"
  using assms
proof (induction n arbitrary: k left s mg)
  case 0
  have "(messages s)(m \<mapsto> mg) = messages s"
    using "0.prems"(2) by (auto simp: fun_eq_iff)
  then show ?case by simp
next
  case (Suc n)
  let ?r = "word_of_int (write_status (fst (wr k))) :: 32 word"
  let ?mg1 = "mg\<lparr>msgCursor := msgCursor mg + ?r\<rparr>"
  let ?s1 = "(call (Socket_write (msgCursor mg) left (fst (wr k))) s)
               \<lparr>messages := (messages s)(m \<mapsto> ?mg1)\<rparr>"
  have l: "left \<noteq> 0" using Suc.prems(4) by (auto dest: spec [of _ 0])
  have p: "0 < write_status (fst (wr k))" using Suc.prems(3) by (auto dest: spec [of _ 0])
  have u: "WriteMessage_loop wr k m left s = WriteMessage_loop wr (Suc k) m (left - ?r) ?s1"
    by (subst WriteMessage_loop.simps) (use l p Suc.prems(1,2) in \<open>simp add: deref_def\<close>)
  have a: "messages ?s1 m = Some ?mg1" by simp
  have b: "\<forall>i<n. 0 < write_status (fst (wr (Suc k + i)))" using Suc.prems(3) by auto
  have d: "\<forall>j<n. written wr (Suc k) j \<noteq> left - ?r"
  proof (intro allI impI)
    fix j assume "j < n"
    then have "written wr k (Suc j) \<noteq> left" using Suc.prems(4) by auto
    then show "written wr (Suc k) j \<noteq> left - ?r" by (auto simp: algebra_simps)
  qed
  note ih = Suc.IH [where s = ?s1 and mg = ?mg1 and k = "Suc k" and left = "left - ?r",
      OF Suc.prems(1) a b d]
  let ?sA = "?s1\<lparr>messages := (messages ?s1)(m \<mapsto> ?mg1\<lparr>msgCursor := msgCursor ?mg1 + written wr (Suc k) n\<rparr>),
                 calls := calls ?s1 @ write_log wr (Suc k) n (msgCursor ?mg1) (left - ?r)\<rparr>"
  let ?sB = "s\<lparr>messages := (messages s)(m \<mapsto> mg\<lparr>msgCursor := msgCursor mg + written wr k (Suc n)\<rparr>),
               calls := calls s @ write_log wr k (Suc n) (msgCursor mg) left\<rparr>"
  have e: "?sA = ?sB" by (cases s) (simp add: call_def add.assoc)
  have f: "left - ?r - written wr (Suc k) n = left - written wr k (Suc n)"
    by (simp add: algebra_simps)
  have g: "Suc k + n = k + Suc n" by simp
  have "WriteMessage_loop wr k m left s = WriteMessage_loop wr (Suc k) m (left - ?r) ?s1"
    by (rule u)
  also have "\<dots> = WriteMessage_loop wr (Suc k + n) m (left - ?r - written wr (Suc k) n) ?sA"
    by (rule ih)
  also have "\<dots> = WriteMessage_loop wr (k + Suc n) m (left - written wr k (Suc n)) ?sB"
    by (simp only: e f g)
  finally show ?case .
qed

text \<open>The write that does not succeed ends the loop.\<close>

lemma WriteMessage_loop_fails:
  assumes "m \<noteq> 0" and "messages s m = Some mg" and "left \<noteq> 0"
    and "write_status (fst (wr k)) \<le> 0"
  shows "WriteMessage_loop wr k m left s =
     Some (Some (if would_block (snd (wr k))
                 then \<lparr>status = stOK, code = suContinue, errNo = 0\<rparr>
                 else \<lparr>status = stError, code = errSocketError, errNo = snd (wr k)\<rparr>),
           s\<lparr>messages := (messages s)(m \<mapsto> mg\<lparr>msgCursor :=
                 (if would_block (snd (wr k)) then msgCursor mg else 0)\<rparr>),
             calls := calls s @ [Socket_write (msgCursor mg) left (fst (wr k))]\<rparr>)"
proof -
  have "(messages s)(m \<mapsto> mg) = messages s"
    using assms(2) by (auto simp: fun_eq_iff)
  then show ?thesis
    by (subst WriteMessage_loop.simps)
       (use assms in \<open>simp add: deref_def would_block_def call_def\<close>)
qed

lemma write_log_asks_for_rest:
  "list_all (asks_for_rest sz) (write_log wr k n c (sz - c))"
proof (induction n arbitrary: k c)
  case 0
  show ?case by simp
next
  case (Suc n)
  let ?r = "word_of_int (write_status (fst (wr k))) :: 32 word"
  have e: "sz - c - ?r = sz - (c + ?r)" by (simp add: algebra_simps)
  have "list_all (asks_for_rest sz) (write_log wr (Suc k) n (c + ?r) (sz - c - ?r))"
    unfolding e by (rule Suc)
  then show ?case by simp
qed

lemma WriteMessage_current:
  assumes "pCurrentOut s \<noteq> 0" "helpers s (pCurrentOut s) = Some h"
    "msg h \<noteq> 0" "messages s (msg h) = Some mg"
  shows "WriteMessage w q s =
     (case WriteMessage_loop (sys_write w) 0 (msg h) (msgSize mg - msgCursor mg) s of
        None \<Rightarrow> None
      | Some (Some st, s2) \<Rightarrow> Some (st, s2)
      | Some (None, s2) \<Rightarrow> WriteMessage_done w q s2)"
  using assms by (simp add: WriteMessage_def deref_def)

lemma WriteMessage_picks:
  assumes "pCurrentOut s = 0" "get_queue q s \<noteq> []" "WriteMessage_pick q s = Some s1"
  shows "WriteMessage w q s = WriteMessage w q s1"
    and "pCurrentOut s1 = hd (get_queue q s)" and "pCurrentOut s1 \<noteq> 0"
    and "\<exists>h mg. helpers s1 (pCurrentOut s1) = Some h \<and> msg h \<noteq> 0
           \<and> messages s1 (msg h) = Some mg \<and> msgCursor mg = 0"
proof -
  from assms(3) obtain h mg where
    h: "hd (get_queue q s) \<noteq> 0" "helpers s (hd (get_queue q s)) = Some h"
      "msg h \<noteq> 0" "messages s (msg h) = Some mg"
    and s1: "s1 = s\<lparr>pCurrentOut := hd (get_queue q s),
                  messages := (messages s)(msg h \<mapsto> mg\<lparr>msgCursor := 0\<rparr>)\<rparr>"
    by (auto simp: WriteMessage_pick_def Let_def deref_def split: option.splits if_splits)
  show c: "pCurrentOut s1 = hd (get_queue q s)" by (simp add: s1)
  show n: "pCurrentOut s1 \<noteq> 0" using h(1) c by simp
  show "\<exists>h mg. helpers s1 (pCurrentOut s1) = Some h \<and> msg h \<noteq> 0
           \<and> messages s1 (msg h) = Some mg \<and> msgCursor mg = 0"
    using h by (auto simp: s1)
  have "WriteMessage w q s =
     (case deref (helpers s1) (pCurrentOut s1) of
        None \<Rightarrow> None
      | Some h \<Rightarrow>
          (case deref (messages s1) (msg h) of
             None \<Rightarrow> None
           | Some mg \<Rightarrow>
               (case WriteMessage_loop (sys_write w) 0 (msg h) (msgSize mg - msgCursor mg) s1 of
                  None \<Rightarrow> None
                | Some (Some st, s2) \<Rightarrow> Some (st, s2)
                | Some (None, s2) \<Rightarrow> WriteMessage_done w q s2)))"
    using assms by (simp add: WriteMessage_def)
  also have "\<dots> = WriteMessage w q s1"
    using n by (simp add: WriteMessage_def)
  finally show "WriteMessage w q s = WriteMessage w q s1" .
qed

text \<open>
  Claim C7. Take the slot \<open>WriteMessage\<close> writes, the current one or the front of the
  queue it has just picked (with the cursor set to 0), and a world whose first \<open>n\<close>
  writes succeed without finishing the message. Every write is issued at the cursor for
  \<open>size - cursor\<close> bytes, and each successful write of \<open>k\<close> bytes moves the cursor by \<open>k\<close>
  (the log \<open>write_log\<close>, and the write \<open>last_write\<close> after it). If the next write does
  not succeed, \<open>WriteMessage\<close> returns: when \<^verbatim>\<open>errno\<close> is \<^verbatim>\<open>EAGAIN\<close> or \<^verbatim>\<open>EWOULDBLOCK\<close> the
  result is \<open>(stOK, suContinue)\<close> and the cursor stays at its partial position, the old
  cursor plus the bytes written; on any other \<^verbatim>\<open>errno\<close> the cursor is reset to 0 and the
  result is \<open>(stError, errSocketError, errno)\<close>; nothing else of the stream changes, the
  slot stays current and queued. If the \<open>n\<close> writes finish the message, the cursor is at
  the size of the message when \<open>WriteMessage\<close> goes on to complete the slot.
\<close>

theorem WriteMessage_cursor:
  assumes "s1 = s \<and> pCurrentOut s \<noteq> 0
           \<or> pCurrentOut s = 0 \<and> get_queue q s \<noteq> [] \<and> WriteMessage_pick q s = Some s1"
    and "helpers s1 (pCurrentOut s1) = Some h" and "msg h \<noteq> 0"
    and "messages s1 (msg h) = Some mg"
    and "\<forall>i<n. 0 < write_status (fst (sys_write w i))"
    and "\<forall>j<n. written (sys_write w) 0 j \<noteq> msgSize mg - msgCursor mg"
  shows "(written (sys_write w) 0 n \<noteq> msgSize mg - msgCursor mg
            \<and> write_status (fst (sys_write w n)) \<le> 0 \<longrightarrow>
          WriteMessage w q s =
            Some (if would_block (snd (sys_write w n))
                  then \<lparr>status = stOK, code = suContinue, errNo = 0\<rparr>
                  else \<lparr>status = stError, code = errSocketError, errNo = snd (sys_write w n)\<rparr>,
                  s1\<lparr>messages := (messages s1)(msg h \<mapsto> mg\<lparr>msgCursor :=
                        (if would_block (snd (sys_write w n))
                         then msgCursor mg + written (sys_write w) 0 n else 0)\<rparr>),
                     calls := calls s1
                        @ write_log (sys_write w) 0 n (msgCursor mg) (msgSize mg - msgCursor mg)
                        @ [last_write (sys_write w) n (msgCursor mg) (msgSize mg - msgCursor mg)]\<rparr>))
       \<and> (written (sys_write w) 0 n = msgSize mg - msgCursor mg \<longrightarrow>
          WriteMessage w q s =
            WriteMessage_done w q
              (s1\<lparr>messages := (messages s1)(msg h \<mapsto> mg\<lparr>msgCursor := msgSize mg\<rparr>),
                  calls := calls s1
                     @ write_log (sys_write w) 0 n (msgCursor mg) (msgSize mg - msgCursor mg)\<rparr>))
       \<and> list_all (asks_for_rest (msgSize mg))
            (write_log (sys_write w) 0 n (msgCursor mg) (msgSize mg - msgCursor mg)
             @ [last_write (sys_write w) n (msgCursor mg) (msgSize mg - msgCursor mg)])"
proof -
  let ?wr = "sys_write w"
  let ?c = "msgCursor mg"
  let ?left = "msgSize mg - msgCursor mg"
  let ?mgn = "mg\<lparr>msgCursor := ?c + written ?wr 0 n\<rparr>"
  let ?sn = "s1\<lparr>messages := (messages s1)(msg h \<mapsto> ?mgn),
                calls := calls s1 @ write_log ?wr 0 n ?c ?left\<rparr>"
  have cur: "pCurrentOut s1 \<noteq> 0" and eq: "WriteMessage w q s = WriteMessage w q s1"
    using assms(1) WriteMessage_picks(1) [of s q s1 w] WriteMessage_picks(3) [of s q s1] by auto
  have a: "\<forall>i<n. 0 < write_status (fst (?wr (0 + i)))" using assms(5) by simp
  have run: "WriteMessage_loop ?wr 0 (msg h) ?left s1 =
             WriteMessage_loop ?wr n (msg h) (?left - written ?wr 0 n) ?sn"
    using WriteMessage_loop_steps [OF assms(3,4) a assms(6)] by simp
  have mn: "messages ?sn (msg h) = Some ?mgn" by simp
  have 1: "WriteMessage w q s =
            Some (if would_block (snd (?wr n))
                  then \<lparr>status = stOK, code = suContinue, errNo = 0\<rparr>
                  else \<lparr>status = stError, code = errSocketError, errNo = snd (?wr n)\<rparr>,
                  s1\<lparr>messages := (messages s1)(msg h \<mapsto> mg\<lparr>msgCursor :=
                        (if would_block (snd (?wr n)) then ?c + written ?wr 0 n else 0)\<rparr>),
                     calls := calls s1 @ write_log ?wr 0 n ?c ?left @ [last_write ?wr n ?c ?left]\<rparr>)"
    if h: "written ?wr 0 n \<noteq> ?left" "write_status (fst (?wr n)) \<le> 0"
  proof -
    have l: "?left - written ?wr 0 n \<noteq> 0" using h(1) by simp
    note f = WriteMessage_loop_fails [of "msg h" ?sn ?mgn "?left - written ?wr 0 n" ?wr n,
        OF assms(3) mn l h(2)]
    show ?thesis
      unfolding eq WriteMessage_current [OF cur assms(2,3,4)] run f
      by (simp add: last_write_def)
  qed
  have 2: "WriteMessage w q s =
            WriteMessage_done w q
              (s1\<lparr>messages := (messages s1)(msg h \<mapsto> mg\<lparr>msgCursor := msgSize mg\<rparr>),
                  calls := calls s1 @ write_log ?wr 0 n ?c ?left\<rparr>)"
    if h: "written ?wr 0 n = ?left"
  proof -
    have z: "WriteMessage_loop ?wr n (msg h) (?left - written ?wr 0 n) ?sn = Some (None, ?sn)"
      by (subst WriteMessage_loop.simps) (simp add: h)
    show ?thesis
      unfolding eq WriteMessage_current [OF cur assms(2,3,4)] run z
      by (simp add: h)
  qed
  have e: "?left - written ?wr 0 n = msgSize mg - (?c + written ?wr 0 n)"
    by (simp add: algebra_simps)
  have 3: "list_all (asks_for_rest (msgSize mg))
            (write_log ?wr 0 n ?c ?left @ [last_write ?wr n ?c ?left])"
    using write_log_asks_for_rest [of "msgSize mg" ?wr 0 n ?c]
    by (simp add: last_write_def e)
  show ?thesis using 1 2 3 by blast
qed

theorem WriteMessage_cursor_witness:
  "pCurrentOut busy_stream \<noteq> 0
   \<and> helpers busy_stream (pCurrentOut busy_stream)
       = Some \<lparr>msg = 11, handler = 21, expires = 5, ownMessage = False\<rparr>
   \<and> messages busy_stream 11 = Some \<lparr>msgSize = 4096, msgCursor = 1500\<rparr>
   \<and> map_option (\<lambda>(st, s'). (st, messages s' 11, calls s', pCurrentOut s', pOutQueue s'))
        (WriteMessage partial_write_world OutQueue busy_stream)
      = Some (\<lparr>status = stOK, code = suContinue, errNo = 0\<rparr>,
              Some \<lparr>msgSize = 4096, msgCursor = 2500\<rparr>,
              [Socket_write 1500 2596 1000, Socket_write 2500 1596 (- 1)], 1, [1, 2, 3])
   \<and> map_option (\<lambda>(st, s'). (st, messages s' 11, calls s', pCurrentOut s', pOutQueue s'))
        (WriteMessage broken_pipe_world OutQueue busy_stream)
      = Some (\<lparr>status = stError, code = errSocketError, errNo = 32\<rparr>,
              Some \<lparr>msgSize = 4096, msgCursor = 0\<rparr>,
              [Socket_write 1500 2596 (- 1)], 1, [1, 2, 3])
   \<and> map_option (\<lambda>(st, s'). (st, messages s' 11, calls s', pCurrentOut s', pOutQueue s'))
        (WriteMessage wrapping_write_world OutQueue busy_stream)
      = Some (\<lparr>status = stError, code = errSocketError, errNo = 0\<rparr>,
              Some \<lparr>msgSize = 4096, msgCursor = 0\<rparr>,
              [Socket_write 1500 2596 2147483648], 1, [1, 2, 3])
   \<and> map_option (\<lambda>(st, s'). (st, messages s' 11, calls s', pCurrentOut s', pOutQueue s'))
        (WriteMessage complete_write_world OutQueue busy_stream)
      = Some (\<lparr>status = stOK, code = noCode, errNo = 0\<rparr>,
              Some \<lparr>msgSize = 4096, msgCursor = 4096\<rparr>,
              [Socket_write 1500 2596 1000, Socket_write 2500 1596 1596,
               Handler_HandleStatus 21 11 \<lparr>status = stOK, code = noCode, errNo = 0\<rparr>],
              0, [2, 3])"
proof -
  let ?h = "\<lparr>msg = 11, handler = 21, expires = 5, ownMessage = False\<rparr>"
  let ?mg = "\<lparr>msgSize = 4096, msgCursor = 1500\<rparr> :: Message"
  have c: "busy_stream = busy_stream \<and> pCurrentOut busy_stream \<noteq> 0
           \<or> pCurrentOut busy_stream = 0 \<and> get_queue OutQueue busy_stream \<noteq> []
              \<and> WriteMessage_pick OutQueue busy_stream = Some busy_stream"
    by (simp add: busy_stream_def fresh_stream_def)
  have p: "pCurrentOut busy_stream = Suc 0" "calls busy_stream = []"
    "pOutQueue busy_stream = [Suc 0, 2, 3]"
    by (simp_all add: busy_stream_def fresh_stream_def)
  have h: "helpers busy_stream (pCurrentOut busy_stream) = Some ?h"
    by (simp add: busy_stream_def fresh_stream_def)
  have m: "msg ?h \<noteq> 0" by simp
  have g: "messages busy_stream (msg ?h) = Some ?mg"
    by (simp add: busy_stream_def fresh_stream_def)
  have b: "would_block 11" "\<not> would_block 32" "\<not> would_block 0"
    by (simp_all add: would_block_def EAGAIN_def EWOULDBLOCK_def)
  have st: "write_status 1000 = 1000" "write_status 1596 = 1596" "write_status (- 1) = - 1"
    "write_status 2147483648 = - 2147483648"
    by (simp_all add: write_status_def)
  have w1: "\<forall>i<Suc 0. 0 < write_status (fst (sys_write partial_write_world i))"
    "\<forall>j<Suc 0. written (sys_write partial_write_world) 0 j \<noteq> msgSize ?mg - msgCursor ?mg"
    "written (sys_write partial_write_world) 0 (Suc 0) = 1000"
    "sys_write partial_write_world (Suc 0) = (- 1, 11)"
    "write_log (sys_write partial_write_world) 0 (Suc 0) 1500 2596 = [Socket_write 1500 2596 1000]"
    by (simp_all add: partial_write_world_def quiet_world_def st)
  have w2: "\<forall>i<0. 0 < write_status (fst (sys_write broken_pipe_world i))"
    "\<forall>j<0. written (sys_write broken_pipe_world) 0 j \<noteq> msgSize ?mg - msgCursor ?mg"
    "sys_write broken_pipe_world 0 = (- 1, 32)"
    by (simp_all add: broken_pipe_world_def quiet_world_def)
  have w3: "\<forall>i<0. 0 < write_status (fst (sys_write wrapping_write_world i))"
    "\<forall>j<0. written (sys_write wrapping_write_world) 0 j \<noteq> msgSize ?mg - msgCursor ?mg"
    "sys_write wrapping_write_world 0 = (2147483648, 0)"
    by (simp_all add: wrapping_write_world_def quiet_world_def)
  have w4: "\<forall>i<Suc (Suc 0). 0 < write_status (fst (sys_write complete_write_world i))"
    "\<forall>j<Suc (Suc 0). written (sys_write complete_write_world) 0 j \<noteq> msgSize ?mg - msgCursor ?mg"
    "written (sys_write complete_write_world) 0 (Suc (Suc 0)) = 2596"
    "write_log (sys_write complete_write_world) 0 (Suc (Suc 0)) 1500 2596
       = [Socket_write 1500 2596 1000, Socket_write 2500 1596 1596]"
    "Poller_EnableWriteNotification_result complete_write_world"
    by (simp_all add: complete_write_world_def quiet_world_def st less_Suc_eq)
  have r1: "map_option (\<lambda>(st, s'). (st, messages s' 11, calls s', pCurrentOut s', pOutQueue s'))
        (WriteMessage partial_write_world OutQueue busy_stream)
      = Some (\<lparr>status = stOK, code = suContinue, errNo = 0\<rparr>,
              Some \<lparr>msgSize = 4096, msgCursor = 2500\<rparr>,
              [Socket_write 1500 2596 1000, Socket_write 2500 1596 (- 1)], 1, [1, 2, 3])"
    using WriteMessage_cursor [OF c h m g w1(1,2)]
    by (simp add: w1(3,4,5) st b p last_write_def del: write_log.simps written.simps)
  have r2: "map_option (\<lambda>(st, s'). (st, messages s' 11, calls s', pCurrentOut s', pOutQueue s'))
        (WriteMessage broken_pipe_world OutQueue busy_stream)
      = Some (\<lparr>status = stError, code = errSocketError, errNo = 32\<rparr>,
              Some \<lparr>msgSize = 4096, msgCursor = 0\<rparr>,
              [Socket_write 1500 2596 (- 1)], 1, [1, 2, 3])"
    using WriteMessage_cursor [OF c h m g w2(1,2)]
    by (simp add: w2(3) st b p last_write_def)
  have r3: "map_option (\<lambda>(st, s'). (st, messages s' 11, calls s', pCurrentOut s', pOutQueue s'))
        (WriteMessage wrapping_write_world OutQueue busy_stream)
      = Some (\<lparr>status = stError, code = errSocketError, errNo = 0\<rparr>,
              Some \<lparr>msgSize = 4096, msgCursor = 0\<rparr>,
              [Socket_write 1500 2596 2147483648], 1, [1, 2, 3])"
    using WriteMessage_cursor [OF c h m g w3(1,2)]
    by (simp add: w3(3) st b p last_write_def)
  have d: "WriteMessage_done complete_write_world OutQueue
             (busy_stream\<lparr>messages := (messages busy_stream)(11 \<mapsto> \<lparr>msgSize = 4096, msgCursor = 4096\<rparr>),
                calls := [Socket_write 1500 2596 1000, Socket_write 2500 1596 1596]\<rparr>)
           = Some (\<lparr>status = stOK, code = noCode, errNo = 0\<rparr>,
               busy_stream\<lparr>messages := (messages busy_stream)(11 \<mapsto> \<lparr>msgSize = 4096, msgCursor = 4096\<rparr>),
                 calls := [Socket_write 1500 2596 1000, Socket_write 2500 1596 1596,
                           Handler_HandleStatus 21 11 \<lparr>status = stOK, code = noCode, errNo = 0\<rparr>],
                 pOutQueue := [2, 3], helpers := (helpers busy_stream)(1 := None),
                 pCurrentOut := 0\<rparr>)"
    by (simp add: WriteMessage_done_def deref_def notify_def call_def get_queue_def set_queue_def
        delete_OutMessageHelper_def Let_def busy_stream_def fresh_stream_def)
  have r4: "map_option (\<lambda>(st, s'). (st, messages s' 11, calls s', pCurrentOut s', pOutQueue s'))
        (WriteMessage complete_write_world OutQueue busy_stream)
      = Some (\<lparr>status = stOK, code = noCode, errNo = 0\<rparr>,
              Some \<lparr>msgSize = 4096, msgCursor = 4096\<rparr>,
              [Socket_write 1500 2596 1000, Socket_write 2500 1596 1596,
               Handler_HandleStatus 21 11 \<lparr>status = stOK, code = noCode, errNo = 0\<rparr>],
              0, [2, 3])"
    using WriteMessage_cursor [OF c h m g w4(1,2)]
    by (simp add: w4(3,4) p d del: write_log.simps written.simps)
  show ?thesis using p(1) h g r1 r2 r3 r4 by simp
qed

end
